theory Spec2Isabelle
  imports Complex_Main "HOL-Library.Word"
begin

section \<open>JavaScript strings\<close>

text \<open>
  A JavaScript string is a sequence of UTF-16 code units; \<open>length\<close> counts code units,
  as \<open>String.prototype.length\<close> does. A string literal of the source, which is ASCII
  throughout the files modelled here, is written \<open>ustr ''...''\<close>.
\<close>

type_synonym jsstring = "16 word list"

definition ustr :: "string \<Rightarrow> jsstring" where
  "ustr s = map of_char s"

section \<open>The NativeWindow wrapper (packages/native-window/index.ts)\<close>

text \<open>
  The class keeps a private flag \<open>_closed\<close> and the lazily created \<open>_unsafe\<close>
  namespace object; every call that gets past \<open>_ensureOpen\<close> is forwarded to the native
  addon. The addon is not part of the TypeScript sources: the model records each call that
  reaches it in \<open>calls\<close>, and takes as a parameter which native calls succeed (a native
  call that throws leaves the wrapper's fields as they were set before the call).
\<close>

datatype error = WindowClosed | NativeFailure

datatype native_call =
    NLoadUrl jsstring
  | NLoadHtml jsstring
  | NPostMessage jsstring
  | NEvaluateJs jsstring
  | NSetTitle jsstring
  | NSetSize int int
  | NSetMinSize int int
  | NSetMaxSize int int
  | NSetPosition int int
  | NSetResizable bool
  | NSetDecorations bool
  | NSetAlwaysOnTop bool
  | NShow
  | NHide
  | NClose
  | NFocus
  | NMaximize
  | NMinimize
  | NUnmaximize
  | NReload
  | NOnMessage
  | NOnResize
  | NOnMove
  | NOnFocus
  | NOnBlur
  | NOnPageLoad
  | NOnTitleChanged
  | NOnReload
  | NOnCookies
  | NGetCookies "jsstring option"

record window =
  closed :: bool
  unsafe_ns :: bool
  userCloseCallback :: bool
  closeCallbackRuns :: nat
  calls :: "native_call list"

type_synonym native = "native_call \<Rightarrow> bool"

type_synonym 'a outcome = "(error + 'a) \<times> window"

text \<open>\<open>new NativeWindow(options)\<close>: the fields as the constructor leaves them.\<close>

definition new_window :: window where
  "new_window = \<lparr>closed = False, unsafe_ns = False, userCloseCallback = False,
     closeCallbackRuns = 0, calls = []\<rparr>"

definition ensureOpen :: "window \<Rightarrow> error + unit" where
  "ensureOpen w = (if closed w then Inl WindowClosed else Inr ())"

definition native_do :: "native \<Rightarrow> native_call \<Rightarrow> window \<Rightarrow> unit outcome" where
  "native_do nv c w =
     (if nv c then (Inr (), w\<lparr>calls := calls w @ [c]\<rparr>) else (Inl NativeFailure, w))"

text \<open>The common shape \<open>this._ensureOpen(); this._native.m(args);\<close>.\<close>

definition guarded :: "native \<Rightarrow> native_call \<Rightarrow> window \<Rightarrow> unit outcome" where
  "guarded nv c w =
     (case ensureOpen w of Inl e \<Rightarrow> (Inl e, w) | Inr _ \<Rightarrow> native_do nv c w)"

definition handleClose :: "window \<Rightarrow> window" where
  "handleClose w =
     (if closed w then w
      else let w1 = w\<lparr>closed := True\<rparr>
           in if userCloseCallback w1
              then w1\<lparr>closeCallbackRuns := closeCallbackRuns w1 + 1\<rparr> else w1)"

definition onClose :: "window \<Rightarrow> window" where
  "onClose w = w\<lparr>userCloseCallback := True\<rparr>"

definition loadUrl :: "native \<Rightarrow> jsstring \<Rightarrow> window \<Rightarrow> unit outcome" where
  "loadUrl nv url w = guarded nv (NLoadUrl url) w"

definition loadHtml :: "native \<Rightarrow> jsstring \<Rightarrow> window \<Rightarrow> unit outcome" where
  "loadHtml nv html w = guarded nv (NLoadHtml html) w"

definition postMessage :: "native \<Rightarrow> jsstring \<Rightarrow> window \<Rightarrow> unit outcome" where
  "postMessage nv message w = guarded nv (NPostMessage message) w"

text \<open>
  The getter \<open>unsafe\<close> checks the flag, creates the namespace object on first use and
  returns it. The object's \<open>evaluateJs\<close> closes over the window (\<open>self\<close>), so a call
  through any reference to it, however old, reads the flag as it is at the time of the call:
  \<open>evaluateJs\<close> below is that method, applied to the window's current state.
\<close>

definition unsafe :: "window \<Rightarrow> unit outcome" where
  "unsafe w =
     (case ensureOpen w of Inl e \<Rightarrow> (Inl e, w) | Inr _ \<Rightarrow> (Inr (), w\<lparr>unsafe_ns := True\<rparr>))"

definition evaluateJs :: "native \<Rightarrow> jsstring \<Rightarrow> window \<Rightarrow> unit outcome" where
  "evaluateJs nv script w = guarded nv (NEvaluateJs script) w"

definition setTitle :: "native \<Rightarrow> jsstring \<Rightarrow> window \<Rightarrow> unit outcome" where
  "setTitle nv title w = guarded nv (NSetTitle title) w"

definition setSize :: "native \<Rightarrow> int \<Rightarrow> int \<Rightarrow> window \<Rightarrow> unit outcome" where
  "setSize nv width height w = guarded nv (NSetSize width height) w"

definition setMinSize :: "native \<Rightarrow> int \<Rightarrow> int \<Rightarrow> window \<Rightarrow> unit outcome" where
  "setMinSize nv width height w = guarded nv (NSetMinSize width height) w"

definition setMaxSize :: "native \<Rightarrow> int \<Rightarrow> int \<Rightarrow> window \<Rightarrow> unit outcome" where
  "setMaxSize nv width height w = guarded nv (NSetMaxSize width height) w"

definition setPosition :: "native \<Rightarrow> int \<Rightarrow> int \<Rightarrow> window \<Rightarrow> unit outcome" where
  "setPosition nv x y w = guarded nv (NSetPosition x y) w"

definition setResizable :: "native \<Rightarrow> bool \<Rightarrow> window \<Rightarrow> unit outcome" where
  "setResizable nv resizable w = guarded nv (NSetResizable resizable) w"

definition setDecorations :: "native \<Rightarrow> bool \<Rightarrow> window \<Rightarrow> unit outcome" where
  "setDecorations nv decorations w = guarded nv (NSetDecorations decorations) w"

definition setAlwaysOnTop :: "native \<Rightarrow> bool \<Rightarrow> window \<Rightarrow> unit outcome" where
  "setAlwaysOnTop nv alwaysOnTop w = guarded nv (NSetAlwaysOnTop alwaysOnTop) w"

definition show_window :: "native \<Rightarrow> window \<Rightarrow> unit outcome" where
  "show_window nv w = guarded nv NShow w"

definition hide :: "native \<Rightarrow> window \<Rightarrow> unit outcome" where
  "hide nv w = guarded nv NHide w"

text \<open>\<open>close()\<close>: the flag is assigned between the check and the native call.\<close>

definition close :: "native \<Rightarrow> window \<Rightarrow> unit outcome" where
  "close nv w =
     (case ensureOpen w of
        Inl e \<Rightarrow> (Inl e, w)
      | Inr _ \<Rightarrow> native_do nv NClose (w\<lparr>closed := True\<rparr>))"

definition focus :: "native \<Rightarrow> window \<Rightarrow> unit outcome" where
  "focus nv w = guarded nv NFocus w"

definition maximize :: "native \<Rightarrow> window \<Rightarrow> unit outcome" where
  "maximize nv w = guarded nv NMaximize w"

definition minimize :: "native \<Rightarrow> window \<Rightarrow> unit outcome" where
  "minimize nv w = guarded nv NMinimize w"

definition unmaximize :: "native \<Rightarrow> window \<Rightarrow> unit outcome" where
  "unmaximize nv w = guarded nv NUnmaximize w"

definition reload :: "native \<Rightarrow> window \<Rightarrow> unit outcome" where
  "reload nv w = guarded nv NReload w"

definition onMessage :: "native \<Rightarrow> window \<Rightarrow> unit outcome" where
  "onMessage nv w = guarded nv NOnMessage w"

definition onPageLoad :: "native \<Rightarrow> window \<Rightarrow> unit outcome" where
  "onPageLoad nv w = guarded nv NOnPageLoad w"

text \<open>
  \<open>getCookies(url)\<close> is not an \<open>async\<close> function: \<open>_ensureOpen\<close> runs, and throws,
  before the promise is constructed. The promise executor then registers the cookie
  callback and issues the native query.
\<close>

definition getCookies :: "native \<Rightarrow> jsstring option \<Rightarrow> window \<Rightarrow> unit outcome" where
  "getCookies nv url w =
     (case ensureOpen w of
        Inl e \<Rightarrow> (Inl e, w)
      | Inr _ \<Rightarrow>
          (case native_do nv NOnCookies w of
             (Inl e, w1) \<Rightarrow> (Inl e, w1)
           | (Inr _, w1) \<Rightarrow> native_do nv (NGetCookies url) w1))"

text \<open>The mutating methods of the class, as one type, to quantify over all of them.\<close>

datatype window_method =
    LoadUrl jsstring
  | LoadHtml jsstring
  | PostMessage jsstring
  | SetTitle jsstring
  | SetSize int int
  | SetMinSize int int
  | SetMaxSize int int
  | SetPosition int int
  | SetResizable bool
  | SetDecorations bool
  | SetAlwaysOnTop bool
  | Show
  | Hide
  | Close
  | Focus
  | Maximize
  | Minimize
  | Unmaximize
  | Reload
  | GetCookies "jsstring option"
  | Unsafe
  | UnsafeEvaluateJs jsstring

fun invoke :: "native \<Rightarrow> window_method \<Rightarrow> window \<Rightarrow> unit outcome" where
  "invoke nv (LoadUrl url) w = loadUrl nv url w"
| "invoke nv (LoadHtml html) w = loadHtml nv html w"
| "invoke nv (PostMessage m) w = postMessage nv m w"
| "invoke nv (SetTitle t) w = setTitle nv t w"
| "invoke nv (SetSize a b) w = setSize nv a b w"
| "invoke nv (SetMinSize a b) w = setMinSize nv a b w"
| "invoke nv (SetMaxSize a b) w = setMaxSize nv a b w"
| "invoke nv (SetPosition a b) w = setPosition nv a b w"
| "invoke nv (SetResizable b) w = setResizable nv b w"
| "invoke nv (SetDecorations b) w = setDecorations nv b w"
| "invoke nv (SetAlwaysOnTop b) w = setAlwaysOnTop nv b w"
| "invoke nv Show w = show_window nv w"
| "invoke nv Hide w = hide nv w"
| "invoke nv Close w = close nv w"
| "invoke nv Focus w = focus nv w"
| "invoke nv Maximize w = maximize nv w"
| "invoke nv Minimize w = minimize nv w"
| "invoke nv Unmaximize w = unmaximize nv w"
| "invoke nv Reload w = reload nv w"
| "invoke nv (GetCookies url) w = getCookies nv url w"
| "invoke nv Unsafe w = unsafe w"
| "invoke nv (UnsafeEvaluateJs script) w = evaluateJs nv script w"

section \<open>JavaScript values and the platform\<close>

text \<open>
  The values that \<open>JSON.parse\<close> produces and \<open>JSON.stringify\<close> consumes, with
  \<open>undefined\<close> for an absent property or argument. An object is the list of its own
  properties in creation order. The channel never computes with a number, so numbers are
  integers here.
\<close>

datatype jsval =
    JUndefined
  | JNull
  | JBool bool
  | JNum int
  | JStr jsstring
  | JArr "jsval list"
  | JObj "(jsstring \<times> jsval) list"

text \<open>Reading a property \<open>v.k\<close> of a parsed value: \<open>undefined\<close> when there is none.\<close>

definition get_prop :: "jsstring \<Rightarrow> jsval \<Rightarrow> jsval" where
  "get_prop k v =
     (case v of
        JObj kvs \<Rightarrow> (case map_of kvs k of Some x \<Rightarrow> x | None \<Rightarrow> JUndefined)
      | _ \<Rightarrow> JUndefined)"

text \<open>
  What the sources take from the JavaScript runtime and not from this repository:
  \<open>JSON.parse\<close> (\<open>None\<close> when it throws), \<open>JSON.stringify\<close>, the origin of
  \<open>new URL(s)\<close> (\<open>None\<close> when the constructor throws) and the string
  \<open>Math.random().toString(36)\<close>. The theorems about the channel hold for every such
  platform; the closed examples run on the model platform defined further down.
\<close>

record platform =
  JSON_parse :: "jsstring \<Rightarrow> jsval option"
  JSON_stringify :: "jsval \<Rightarrow> jsstring"
  URL_origin :: "jsstring \<Rightarrow> jsstring option"
  random_toString36 :: jsstring

section \<open>Channel helpers (packages/native-window-ipc/index.ts)\<close>

text \<open>A schema is its \<open>safeParse\<close>: \<open>Some data\<close> on success, \<open>None\<close> on failure.\<close>

type_synonym schema = "jsval \<Rightarrow> jsval option"

text \<open>
  The numeric options (\<open>maxMessageSize\<close>, \<open>rateLimit\<close>, \<open>maxListenersPerEvent\<close>) are
  JavaScript numbers, which need not be whole: they are real numbers here, the lengths
  they are compared with being natural numbers. \<open>NaN\<close> and the infinities are left out.
\<close>

definition MAX_MESSAGE_SIZE :: real where
  "MAX_MESSAGE_SIZE = 1048576"

definition validatePayload :: "schema \<Rightarrow> jsval \<Rightarrow> jsval option" where
  "validatePayload schema data =
     (case schema data of Some d \<Rightarrow> Some d | None \<Rightarrow> None)"

definition isEnvelope :: "jsval \<Rightarrow> bool" where
  "isEnvelope data =
     (case data of
        JObj kvs \<Rightarrow> (case map_of kvs (ustr ''$ch'') of Some (JStr c) \<Rightarrow> True | _ \<Rightarrow> False)
      | _ \<Rightarrow> False)"

definition encode :: "platform \<Rightarrow> jsstring \<Rightarrow> jsval \<Rightarrow> jsstring" where
  "encode pf type payload =
     JSON_stringify pf (JObj [(ustr ''$ch'', JStr type), (ustr ''p'', payload)])"

text \<open>
  \<open>delete parsed.__proto__\<close>: every object and array that \<open>JSON.parse\<close> returns
  inherits the \<open>__proto__\<close> accessor, so the \<open>in\<close> test holds for each of them and the
  \<open>delete\<close> removes an own property of that name where there is one. Only the parsed
  value itself is touched, not the values nested in it.
\<close>

definition delete_proto :: "jsval \<Rightarrow> jsval" where
  "delete_proto parsed =
     (case parsed of
        JObj kvs \<Rightarrow> JObj (filter (\<lambda>kv. fst kv \<noteq> ustr ''__proto__'') kvs)
      | other \<Rightarrow> other)"

definition decode :: "platform \<Rightarrow> jsstring \<Rightarrow> real option \<Rightarrow> jsval option" where
  "decode pf raw maxSize =
     (if real (length raw) > (case maxSize of None \<Rightarrow> MAX_MESSAGE_SIZE | Some m \<Rightarrow> m)
      then None
      else (case JSON_parse pf raw of
              None \<Rightarrow> None
            | Some parsed \<Rightarrow>
                (let parsed' = delete_proto parsed
                 in if isEnvelope parsed' then Some parsed' else None)))"

definition normalizeOrigin :: "platform \<Rightarrow> jsstring \<Rightarrow> jsstring option" where
  "normalizeOrigin pf origin =
     (case URL_origin pf origin of
        None \<Rightarrow> None
      | Some o' \<Rightarrow> if o' = ustr ''null'' then None else Some o')"

definition isOriginTrusted :: "platform \<Rightarrow> jsstring \<Rightarrow> jsstring list \<Rightarrow> bool" where
  "isOriginTrusted pf url trusted =
     (case URL_origin pf url of
        None \<Rightarrow> False
      | Some o' \<Rightarrow> o' \<in> set trusted)"

section \<open>The client script\<close>

text \<open>
  The template literal of \<open>getClientScript\<close>, cut at its one substitution
  \<open>${prefixLiteral}\<close>: the lines of the text before it and of the text after it.
\<close>

definition clientScriptHead :: "string list" where
  \<open>clientScriptHead =
       [''(function(){\<newline>'',
        ''var _slice=Array.prototype.slice;\<newline>'',
        ''var _filter=Array.prototype.filter;\<newline>'',
        ''var _push=Array.prototype.push;\<newline>'',
        ''var _indexOf=Array.prototype.indexOf;\<newline>'',
        ''var _splice=Array.prototype.splice;\<newline>'',
        ''var _pfx='']\<close>

definition clientScriptTail :: "string list" where
  \<open>clientScriptTail =
       ['';\<newline>'',
        ''var _l=Object.create(null);\<newline>'',
        ''var _el=[];\<newline>'',
        ''function _e(t,p){return JSON.stringify({$ch:_pfx?_pfx+":"+t:t,p:p})}\<newline>'',
        ''function _d(r){if(r.length>1048576)return null;try{var o=JSON.parse(r);if(typeof o==="object"&&o!==null&&"__proto__" in o)delete o.__proto__;if(o&&typeof o.$ch==="string")return o}catch(e){}return null}\<newline>'',
        ''function _uch(ch){if(!_pfx)return ch;if(ch.indexOf(_pfx+":")===0)return ch.slice(_pfx.length+1);return null}\<newline>'',
        ''var ch={\<newline>'',
        ''send:function(t,p){window.ipc.postMessage(_e(t,p))},\<newline>'',
        ''on:function(t,h){if(!_l[t])_l[t]=[];_l[t].push(h)},\<newline>'',
        ''off:function(t,h){if(!_l[t])return;_l[t]=_filter.call(_l[t],function(f){return f!==h})}\<newline>'',
        ''};\<newline>'',
        ''var _orig=window.__native_message__;\<newline>'',
        ''try{Object.defineProperty(window,'__native_message__',{value:function(msg){\<newline>'',
        ''var env=_d(msg);\<newline>'',
        ''if(env){var key=_uch(env.$ch);if(key!==null&&_l[key]){var fns=_slice.call(_l[key]);for(var i=0;i<fns.length;i++){try{fns[i](env.p)}catch(e){}}}\<newline>'',
        ''else{for(var j=0;j<_el.length;j++){try{_el[j](msg)}catch(e){}}if(_orig){_orig(msg)}}}\<newline>'',
        ''else{for(var j=0;j<_el.length;j++){try{_el[j](msg)}catch(e){}}if(_orig){_orig(msg)}}\<newline>'',
        ''},writable:false,configurable:false})}catch(e){}\<newline>'',
        ''try{Object.defineProperty(window,'__native_message_listeners__',{value:Object.freeze({add:function(fn){if(typeof fn==='function')_push.call(_el,fn)},remove:function(fn){var i=_indexOf.call(_el,fn);if(i!==-1)_splice.call(_el,i,1)}}),writable:false,configurable:false})}catch(e){}\<newline>'',
        ''try{Object.defineProperty(window,'__channel__',{value:Object.freeze(ch),writable:false,configurable:false})}catch(e){}\<newline>'',
        ''})();'']\<close>

definition getClientScript :: "platform \<Rightarrow> jsstring option \<Rightarrow> jsstring" where
  "getClientScript pf channelId =
     (let pfx = (case channelId of None \<Rightarrow> [] | Some c \<Rightarrow> c);
          prefixLiteral = JSON_stringify pf (JStr pfx)
      in ustr (concat clientScriptHead) @ prefixLiteral @ ustr (concat clientScriptTail))"

section \<open>createChannel\<close>

datatype channelIdOption = IdString jsstring | IdTrue

record channelOptions =
  schemas :: "jsstring \<rightharpoonup> schema"
  injectClient :: "bool option"
  onValidationError :: bool
  trustedOrigins :: "jsstring list option"
  maxMessageSize :: "real option"
  rateLimit :: "real option"
  maxListenersPerEvent :: "real option"
  channelIdOpt :: "channelIdOption option"

text \<open>
  The variables that the closures of \<open>createChannel\<close> share: the options, the resolved
  \<open>channelId\<close>, \<open>normalizedOrigins\<close>, the \<open>listeners\<close> map (a \<open>Set\<close> of handlers is
  the list of its members in insertion order) and \<open>_rateLimitWindow\<close>. A handler is known
  by its identity \<open>'h\<close>; what a handler does when it is called is the host's code.
\<close>

record 'h channel =
  options :: channelOptions
  channelId :: jsstring
  normalizedOrigins :: "jsstring list option"
  listeners :: "jsstring \<rightharpoonup> 'h list"
  rateLimitWindow :: "int list"

text \<open>What a delivery does that the host can observe, in order.\<close>

datatype 'h effect =
    SafeParse jsstring jsval
  | ValidationError jsstring jsval
  | Invoke 'h jsval
  | ThrowTypeError

definition slice :: "nat \<Rightarrow> nat \<Rightarrow> 'a list \<Rightarrow> 'a list" where
  "slice b e s = take (e - b) (drop b s)"

definition startsWith :: "'a list \<Rightarrow> 'a list \<Rightarrow> bool" where
  "startsWith s pfx = (take (length pfx) s = pfx)"

definition resolveChannelId :: "platform \<Rightarrow> channelIdOption option \<Rightarrow> jsstring" where
  "resolveChannelId pf opt =
     (case opt of
        Some IdTrue \<Rightarrow> slice 2 10 (random_toString36 pf)
      | Some (IdString s) \<Rightarrow> s
      | None \<Rightarrow> [])"

definition normalizeOrigins :: "platform \<Rightarrow> jsstring list option \<Rightarrow> jsstring list option" where
  "normalizeOrigins pf trusted =
     (case trusted of
        None \<Rightarrow> None
      | Some ts \<Rightarrow> Some (List.map_filter (normalizeOrigin pf) ts))"

definition prefixCh :: "jsstring \<Rightarrow> jsstring \<Rightarrow> jsstring" where
  "prefixCh cid type = (if cid \<noteq> [] then cid @ ustr '':'' @ type else type)"

definition unprefixCh :: "jsstring \<Rightarrow> jsstring \<Rightarrow> jsstring option" where
  "unprefixCh cid c =
     (if cid = [] then Some c
      else (let pfx = cid @ ustr '':''
            in if startsWith c pfx then Some (drop (length pfx) c) else None))"

text \<open>The loop \<open>while (w.length > 0 && w[0] <= now - 1000) w.shift()\<close>.\<close>

fun shiftExpired :: "int \<Rightarrow> int list \<Rightarrow> int list" where
  "shiftExpired now [] = []"
| "shiftExpired now (t # ts) = (if t \<le> now - 1000 then shiftExpired now ts else t # ts)"

text \<open>
  The rate-limiting block at the head of the message callback: whether the message goes
  on, and the window as the block leaves it.
\<close>

definition rateLimitStep :: "real option \<Rightarrow> int list \<Rightarrow> int \<Rightarrow> bool \<times> int list" where
  "rateLimitStep limit w now =
     (case limit of
        None \<Rightarrow> (True, w)
      | Some r \<Rightarrow>
          if r > 0
          then (let w1 = shiftExpired now w
                in if real (length w1) \<ge> r then (False, w1) else (True, w1 @ [now]))
          else (True, w))"

definition originGateOpen :: "platform \<Rightarrow> jsstring list option \<Rightarrow> jsstring \<Rightarrow> bool" where
  "originGateOpen pf origins url =
     (case origins of
        None \<Rightarrow> True
      | Some ts \<Rightarrow> if length ts > 0 then isOriginTrusted pf url ts else True)"

text \<open>
  \<open>eventType in schemas\<close>. The \<open>in\<close> operator looks along the prototype chain: for
  a schema map written as an object literal it holds for the map's own keys and for the
  property names of \<open>Object.prototype\<close>.
\<close>

definition objectPrototypeNames :: "jsstring list" where
  "objectPrototypeNames =
     map ustr [''constructor'', ''__defineGetter__'', ''__defineSetter__'', ''hasOwnProperty'',
               ''__lookupGetter__'', ''__lookupSetter__'', ''isPrototypeOf'',
               ''propertyIsEnumerable'', ''toString'', ''valueOf'', ''__proto__'',
               ''toLocaleString'']"

definition inSchemas :: "(jsstring \<rightharpoonup> schema) \<Rightarrow> jsstring \<Rightarrow> bool" where
  "inSchemas m k = (case m k of Some schema \<Rightarrow> True | None \<Rightarrow> k \<in> set objectPrototypeNames)"

text \<open>
  The callback given to \<open>win.onMessage\<close>, called with \<open>(raw, sourceUrl)\<close> when
  \<open>Date.now()\<close> is \<open>now\<close>. The branch for an envelope whose \<open>$ch\<close> is not a string
  is never taken, \<open>decode\<close> having checked \<open>isEnvelope\<close>. For an inherited name
  \<open>schemas[eventType]\<close> is a member of \<open>Object.prototype\<close>, which has no
  \<open>safeParse\<close>: \<open>validatePayload\<close> throws a \<open>TypeError\<close> out of the callback.
\<close>

definition channelOnMessage ::
  "platform \<Rightarrow> 'h channel \<Rightarrow> int \<Rightarrow> jsstring \<Rightarrow> jsstring \<Rightarrow> 'h channel \<times> 'h effect list" where
  "channelOnMessage pf ch now raw sourceUrl =
     (case rateLimitStep (rateLimit (options ch)) (rateLimitWindow ch) now of
        (False, w1) \<Rightarrow> (ch\<lparr>rateLimitWindow := w1\<rparr>, [])
      | (True, w1) \<Rightarrow>
         (case decode pf raw (maxMessageSize (options ch)) of
            None \<Rightarrow> (ch\<lparr>rateLimitWindow := w1\<rparr>, [])
          | Some env \<Rightarrow>
             (case get_prop (ustr ''$ch'') env of
                JStr c \<Rightarrow>
                 (case unprefixCh (channelId ch) c of
                    None \<Rightarrow> (ch\<lparr>rateLimitWindow := w1\<rparr>, [])
                  | Some eventType \<Rightarrow>
                     if \<not> originGateOpen pf (normalizedOrigins ch) sourceUrl
                     then (ch\<lparr>rateLimitWindow := w1\<rparr>, [])
                     else
                      (case listeners ch eventType of
                         None \<Rightarrow> (ch\<lparr>rateLimitWindow := w1\<rparr>, [])
                       | Some hs \<Rightarrow>
                          if \<not> inSchemas (schemas (options ch)) eventType
                          then (ch\<lparr>rateLimitWindow := w1\<rparr>, [])
                          else
                          (case schemas (options ch) eventType of
                             None \<Rightarrow> (ch\<lparr>rateLimitWindow := w1\<rparr>, [ThrowTypeError])
                           | Some schema \<Rightarrow>
                              (case validatePayload schema (get_prop (ustr ''p'') env) of
                                 None \<Rightarrow>
                                  (ch\<lparr>rateLimitWindow := w1\<rparr>,
                                   SafeParse eventType (get_prop (ustr ''p'') env) #
                                     (if onValidationError (options ch)
                                      then [ValidationError eventType (get_prop (ustr ''p'') env)]
                                      else []))
                               | Some data \<Rightarrow>
                                  (ch\<lparr>rateLimitWindow := w1\<rparr>,
                                   SafeParse eventType (get_prop (ustr ''p'') env) #
                                     map (\<lambda>fn. Invoke fn data) hs)))))
              | _ \<Rightarrow> (ch\<lparr>rateLimitWindow := w1\<rparr>, []))))"

text \<open>\<open>win.unsafe.evaluateJs(getClientScript({ channelId: channelId || undefined }))\<close>\<close>

definition injectClientScript :: "native \<Rightarrow> platform \<Rightarrow> jsstring \<Rightarrow> window \<Rightarrow> unit outcome" where
  "injectClientScript nv pf cid w =
     (case unsafe w of
        (Inl e, w1) \<Rightarrow> (Inl e, w1)
      | (Inr _, w1) \<Rightarrow>
          evaluateJs nv (getClientScript pf (if cid = [] then None else Some cid)) w1)"

datatype pageLoadEvent = Started | Finished

text \<open>The callback given to \<open>win.onPageLoad\<close>; it is registered only when \<open>injectClient\<close>.\<close>

definition channelOnPageLoad ::
  "native \<Rightarrow> platform \<Rightarrow> 'h channel \<Rightarrow> pageLoadEvent \<Rightarrow> jsstring \<Rightarrow> window \<Rightarrow> unit outcome" where
  "channelOnPageLoad nv pf ch event url w =
     (if event \<noteq> Finished then (Inr (), w)
      else if \<not> originGateOpen pf (normalizedOrigins ch) url then (Inr (), w)
      else injectClientScript nv pf (channelId ch) w)"

definition createChannel ::
  "native \<Rightarrow> platform \<Rightarrow> channelOptions \<Rightarrow> window \<Rightarrow> 'h channel outcome" where
  "createChannel nv pf opts win =
     (let cid = resolveChannelId pf (channelIdOpt opts);
          origins = normalizeOrigins pf (trustedOrigins opts);
          ch = \<lparr>options = opts, channelId = cid, normalizedOrigins = origins,
                listeners = Map.empty, rateLimitWindow = []\<rparr>
      in case onMessage nv win of
           (Inl e, w1) \<Rightarrow> (Inl e, w1)
         | (Inr _, w1) \<Rightarrow>
            if (case injectClient opts of None \<Rightarrow> True | Some b \<Rightarrow> b)
            then (case (if (case origins of None \<Rightarrow> True | Some ts \<Rightarrow> length ts = 0)
                        then injectClientScript nv pf cid w1 else (Inr (), w1)) of
                    (Inl e, w2) \<Rightarrow> (Inl e, w2)
                  | (Inr _, w2) \<Rightarrow>
                     (case onPageLoad nv w2 of
                        (Inl e, w3) \<Rightarrow> (Inl e, w3)
                      | (Inr _, w3) \<Rightarrow> (Inr ch, w3)))
            else (Inr ch, w1))"

definition send ::
  "native \<Rightarrow> platform \<Rightarrow> 'h channel \<Rightarrow> jsstring \<Rightarrow> jsval \<Rightarrow> window \<Rightarrow> unit outcome" where
  "send nv pf ch type payload win =
     postMessage nv (encode pf (prefixCh (channelId ch) type) payload) win"

definition on :: "'h channel \<Rightarrow> jsstring \<Rightarrow> 'h \<Rightarrow> 'h channel" where
  "on ch type handler =
     (if \<not> inSchemas (schemas (options ch)) type then ch
      else (let set0 = (case listeners ch type of None \<Rightarrow> [] | Some hs \<Rightarrow> hs);
                ch1 = ch\<lparr>listeners := (listeners ch)(type \<mapsto> set0)\<rparr>
            in if (case maxListenersPerEvent (options ch) of
                     None \<Rightarrow> False | Some m \<Rightarrow> real (length set0) \<ge> m)
               then ch1
               else ch1\<lparr>listeners := (listeners ch)(type \<mapsto>
                      (if handler \<in> set set0 then set0 else set0 @ [handler]))\<rparr>))"

definition off :: "'h channel \<Rightarrow> jsstring \<Rightarrow> 'h \<Rightarrow> 'h channel" where
  "off ch type handler =
     (case listeners ch type of
        None \<Rightarrow> ch
      | Some hs \<Rightarrow> ch\<lparr>listeners := (listeners ch)(type \<mapsto> removeAll handler hs)\<rparr>)"

section \<open>sanitizeForJs (packages/native-window/index.ts)\<close>

text \<open>
  \<open>String.prototype.replace\<close> with a global regular expression that is a sequence of
  single characters: the pattern gives, for each position, the code units accepted there
  (one for a literal, the two cases of a letter under the \<open>i\<close> flag, which without the
  \<open>u\<close> flag matches no character outside ASCII against an ASCII letter). Matches are
  taken leftmost first and do not overlap; the replacement strings of the source contain
  no substitution pattern. The patterns of the source are not empty.
\<close>

fun matchAt :: "16 word list list \<Rightarrow> jsstring \<Rightarrow> bool" where
  "matchAt [] s = True"
| "matchAt (cls # pat) [] = False"
| "matchAt (cls # pat) (c # s) = (c \<in> set cls \<and> matchAt pat s)"

function replaceAll :: "16 word list list \<Rightarrow> jsstring \<Rightarrow> jsstring \<Rightarrow> jsstring" where
  "replaceAll pat rep [] = []"
| "replaceAll pat rep (c # s) =
     (if pat \<noteq> [] \<and> matchAt pat (c # s)
      then rep @ replaceAll pat rep (drop (length pat) (c # s))
      else c # replaceAll pat rep s)"
  by pat_completeness auto
termination
  by (relation "measure (\<lambda>(pat, rep, s). length s)") auto

text \<open>The regular expression \<open>/<\/script>/gi\<close>.\<close>

definition scriptClose :: "16 word list list" where
  "scriptClose =
     [[60], [47], [115, 83], [99, 67], [114, 82], [105, 73], [112, 80], [116, 84], [62]]"

text \<open>
  Where an HTML parser ends a \<open>script\<close> element (HTML Standard, script data end tag name
  state; not code of the repository): at \<open></script\<close>, in any mix of upper and lower case,
  followed by a tab, a line feed, a form feed, a space, \<open>/\<close> or \<open>>\<close>.
\<close>

definition scriptEndTag :: "16 word list list" where
  "scriptEndTag =
     [[60], [47], [115, 83], [99, 67], [114, 82], [105, 73], [112, 80], [116, 84],
      [9, 10, 12, 32, 47, 62]]"

text \<open>
  The chain of \<open>replace\<close> calls, in the order of the source. Code units: 92 backslash,
  39 and 34 the quotes, 96 backtick, 36 and 123 \<open>${\<close>, 10 and 13 newline and carriage
  return, 0 NUL, 8232 and 8233 the separators U+2028 and U+2029.
\<close>

definition sanitizeForJs :: "jsstring \<Rightarrow> jsstring" where
  "sanitizeForJs input =
     (let s1 = replaceAll [[92]] [92, 92] input;
          s2 = replaceAll [[39]] [92, 39] s1;
          s3 = replaceAll [[34]] [92, 34] s2;
          s4 = replaceAll [[96]] [92, 96] s3;
          s5 = replaceAll [[36], [123]] [92, 36, 123] s4;
          s6 = replaceAll [[10]] (92 # ustr ''n'') s5;
          s7 = replaceAll [[13]] (92 # ustr ''r'') s6;
          s8 = replaceAll [[0]] (92 # ustr ''0'') s7;
          s9 = replaceAll [[8232]] (92 # ustr ''u2028'') s8;
          s10 = replaceAll [[8233]] (92 # ustr ''u2029'') s9
      in replaceAll scriptClose (60 # 92 # ustr ''/script>'') s10)"

text \<open>
  The number of backslashes that stand immediately before position \<open>i\<close> of a string,
  and whether a string has a match of a pattern at some position.
\<close>

definition backslashesBefore :: "jsstring \<Rightarrow> nat \<Rightarrow> nat" where
  "backslashesBefore s i = length (takeWhile (\<lambda>c. c = 92) (rev (take i s)))"

fun occursIn :: "16 word list list \<Rightarrow> jsstring \<Rightarrow> bool" where
  "occursIn pat [] = matchAt pat []"
| "occursIn pat (c # s) = (matchAt pat (c # s) \<or> occursIn pat s)"

text \<open>
  Reading a string from the left: \<open>par\<close> tells whether an odd number of backslashes
  stands immediately before the next character. \<open>nextIs s x\<close>: the string starts with
  \<open>x\<close>. \<open>escaped\<close>: every quote, backtick and \<open>${\<close> is read with \<open>par\<close> set.
  \<open>escapedOnly Q D\<close>: a character is read with \<open>par\<close> set exactly if it is in \<open>Q\<close> or,
  when \<open>D\<close> holds, is the \<open>$\<close> of a \<open>${\<close>.
\<close>

definition nextIs :: "jsstring \<Rightarrow> 16 word \<Rightarrow> bool" where
  "nextIs s x = (case s of [] \<Rightarrow> False | d # r \<Rightarrow> d = x)"

fun parityAfter :: "bool \<Rightarrow> jsstring \<Rightarrow> bool" where
  "parityAfter par [] = par"
| "parityAfter par (c # s) = parityAfter (if c = 92 then \<not> par else False) s"

fun escaped :: "bool \<Rightarrow> jsstring \<Rightarrow> bool" where
  "escaped par [] = True"
| "escaped par (c # s) =
     (if c = 92 then escaped (\<not> par) s
      else (c \<in> {34, 39, 96} \<longrightarrow> par) \<and> (c = 36 \<and> nextIs s 123 \<longrightarrow> par) \<and> escaped False s)"

fun escapedOnly :: "16 word set \<Rightarrow> bool \<Rightarrow> bool \<Rightarrow> jsstring \<Rightarrow> bool" where
  "escapedOnly Q D par [] = True"
| "escapedOnly Q D par (c # s) =
     (if c = 92 then escapedOnly Q D (\<not> par) s
      else par = (c \<in> Q \<or> (D \<and> c = 36 \<and> nextIs s 123)) \<and> escapedOnly Q D False s)"

text \<open>A code unit that is neither a backslash, a quote, a backtick, \<open>$\<close> nor \<open>{\<close>.\<close>

definition plainUnit :: "16 word \<Rightarrow> bool" where
  "plainUnit c = (c \<notin> {92, 34, 39, 96, 36, 123})"

section \<open>Substrings\<close>

text \<open>\<open>String.prototype.includes\<close>.\<close>

fun str_includes :: "'a list \<Rightarrow> 'a list \<Rightarrow> bool" where
  "str_includes [] needle = (needle = [])"
| "str_includes (c # s) needle = (startsWith (c # s) needle \<or> str_includes s needle)"

text \<open>
  \<open>callsOnly name sufs s\<close>: wherever \<open>name\<close> occurs in \<open>s\<close>, it is followed there by
  one of the texts \<open>sufs\<close>.
\<close>

fun callsOnly :: "string \<Rightarrow> string list \<Rightarrow> string \<Rightarrow> bool" where
  "callsOnly name sufs [] = True"
| "callsOnly name sufs (c # s) =
     ((if startsWith (c # s) name then list_ex (\<lambda>x. startsWith (c # s) (name @ x)) sufs
       else True)
      \<and> callsOnly name sufs s)"

section \<open>A model platform\<close>

text \<open>
  The runtime functions, for the closed examples below. These are not code of the
  repository: they follow the ECMAScript definitions of \<open>JSON.stringify\<close> and
  \<open>JSON.parse\<close> and the URL Standard's origin on the inputs the examples use (integers
  for numbers, no lone surrogates on output; hosts are taken as written and lowercased,
  without IDNA or percent-decoding). The theorems about the channel hold for every
  platform; where one of them needs that \<open>JSON.parse\<close> inverts \<open>JSON.stringify\<close>, it
  says so, and the model platform is shown to be such a platform.
\<close>

definition lowerUnit :: "16 word \<Rightarrow> 16 word" where
  "lowerUnit c = (if 65 \<le> c \<and> c \<le> 90 then c + 32 else c)"

definition isDigit :: "16 word \<Rightarrow> bool" where
  "isDigit c = (48 \<le> c \<and> c \<le> 57)"

definition isSchemeUnit :: "16 word \<Rightarrow> bool" where
  "isSchemeUnit c = ((97 \<le> lowerUnit c \<and> lowerUnit c \<le> 122) \<or> isDigit c \<or> c = 43 \<or> c = 45 \<or> c = 46)"

definition defaultPort :: "jsstring \<Rightarrow> jsstring" where
  "defaultPort scheme =
     (if scheme = ustr ''http'' \<or> scheme = ustr ''ws'' then ustr ''80''
      else if scheme = ustr ''https'' \<or> scheme = ustr ''wss'' then ustr ''443''
      else ustr ''21'')"

definition afterLast :: "16 word \<Rightarrow> jsstring \<Rightarrow> jsstring" where
  "afterLast c s = rev (takeWhile (\<lambda>x. x \<noteq> c) (rev s))"

definition model_origin :: "jsstring \<Rightarrow> jsstring option" where
  "model_origin s =
     (let scheme = map lowerUnit (takeWhile (\<lambda>c. c \<noteq> 58) s);
          rest = drop (length scheme) s
      in if rest = [] \<or> scheme = [] \<or> \<not> list_all isSchemeUnit scheme
            \<or> isDigit (hd scheme) \<or> hd scheme \<in> {43, 45, 46}
         then None
         else if scheme \<notin> set (map ustr [''http'', ''https'', ''ws'', ''wss'', ''ftp''])
         then Some (ustr ''null'')
         else (let authority = takeWhile (\<lambda>c. c \<notin> {47, 92, 63, 35})
                                 (dropWhile (\<lambda>c. c = 47 \<or> c = 92) (tl rest));
                   hostport = afterLast 64 authority;
                   port = (if 58 \<in> set hostport \<and> list_all isDigit (afterLast 58 hostport)
                           then afterLast 58 hostport else []);
                   host = (if 58 \<in> set hostport \<and> list_all isDigit (afterLast 58 hostport)
                           then take (length hostport - length port - 1) hostport else hostport)
               in if host = [] \<or> (58 \<in> set host \<and> (hd host \<noteq> 91 \<or> last host \<noteq> 93))
                  then None
                  else Some (scheme @ ustr ''://'' @ map lowerUnit host
                        @ (if port = [] \<or> port = defaultPort scheme then [] else 58 # port))))"

definition hexDigit :: "nat \<Rightarrow> 16 word" where
  "hexDigit n = (if n < 10 then of_nat (48 + n) else of_nat (87 + n))"

definition quoteUnit :: "16 word \<Rightarrow> jsstring" where
  "quoteUnit c =
     (if c = 34 then ustr [CHR 0x5C, CHR 0x22]
      else if c = 92 then ustr [CHR 0x5C, CHR 0x5C]
      else if c = 8 then ustr [CHR 0x5C, CHR ''b'']
      else if c = 12 then ustr [CHR 0x5C, CHR ''f'']
      else if c = 10 then ustr [CHR 0x5C, CHR ''n'']
      else if c = 13 then ustr [CHR 0x5C, CHR ''r'']
      else if c = 9 then ustr [CHR 0x5C, CHR ''t'']
      else if c < 32 then ustr [CHR 0x5C, CHR ''u'', CHR ''0'', CHR ''0'']
                            @ [hexDigit (unat c div 16), hexDigit (unat c mod 16)]
      else [c])"

definition quoteJSON :: "jsstring \<Rightarrow> jsstring" where
  "quoteJSON s = 34 # concat (map quoteUnit s) @ [34]"

fun decimal :: "nat \<Rightarrow> nat \<Rightarrow> jsstring" where
  "decimal 0 n = []"
| "decimal (Suc fuel) n =
     (if n < 10 then [of_nat (48 + n)] else decimal fuel (n div 10) @ [of_nat (48 + n mod 10)])"

definition numberToString :: "int \<Rightarrow> jsstring" where
  "numberToString i =
     (if i < 0 then 45 # decimal (Suc (nat (- i))) (nat (- i)) else decimal (Suc (nat i)) (nat i))"

fun joinWith :: "jsstring \<Rightarrow> jsstring list \<Rightarrow> jsstring" where
  "joinWith sep [] = []"
| "joinWith sep [x] = x"
| "joinWith sep (x # y # r) = x @ sep @ joinWith sep (y # r)"

fun model_stringify :: "jsval \<Rightarrow> jsstring"
  and stringifyElements :: "jsval list \<Rightarrow> jsstring list"
  and stringifyMembers :: "(jsstring \<times> jsval) list \<Rightarrow> jsstring list"
  and stringifyMember :: "jsstring \<times> jsval \<Rightarrow> jsstring list" where
  "model_stringify JUndefined = ustr ''null''"
| "model_stringify JNull = ustr ''null''"
| "model_stringify (JBool b) = (if b then ustr ''true'' else ustr ''false'')"
| "model_stringify (JNum i) = numberToString i"
| "model_stringify (JStr s) = quoteJSON s"
| "model_stringify (JArr vs) = 91 # joinWith [44] (stringifyElements vs) @ [93]"
| "model_stringify (JObj kvs) = 123 # joinWith [44] (stringifyMembers kvs) @ [125]"
| "stringifyElements [] = []"
| "stringifyElements (v # vs) = model_stringify v # stringifyElements vs"
| "stringifyMembers [] = []"
| "stringifyMembers (kv # kvs) = stringifyMember kv @ stringifyMembers kvs"
| "stringifyMember (k, v) =
     (if v = JUndefined then [] else [quoteJSON k @ 58 # model_stringify v])"

definition isSpace :: "16 word \<Rightarrow> bool" where
  "isSpace c = (c = 32 \<or> c = 9 \<or> c = 10 \<or> c = 13)"

definition unescapeUnit :: "16 word \<Rightarrow> 16 word option" where
  "unescapeUnit e =
     (if e = 34 \<or> e = 92 \<or> e = 47 then Some e
      else if e = 98 then Some 8 else if e = 102 then Some 12
      else if e = 110 then Some 10 else if e = 114 then Some 13
      else if e = 116 then Some 9 else None)"

text \<open>The four hexadecimal digits of a \<open>\u\<close> escape.\<close>

definition hexValue :: "16 word \<Rightarrow> nat option" where
  "hexValue c =
     (if 48 \<le> c \<and> c \<le> 57 then Some (unat c - 48)
      else if 97 \<le> c \<and> c \<le> 102 then Some (unat c - 87)
      else if 65 \<le> c \<and> c \<le> 70 then Some (unat c - 55)
      else None)"

definition hex4 :: "jsstring \<Rightarrow> 16 word option" where
  "hex4 ds =
     (case map hexValue ds of
        [Some a, Some b, Some c, Some d] \<Rightarrow> Some (of_nat (((a * 16 + b) * 16 + c) * 16 + d))
      | _ \<Rightarrow> None)"

function parseStringBody :: "jsstring \<Rightarrow> jsstring \<Rightarrow> (jsstring \<times> jsstring) option" where
  "parseStringBody acc [] = None"
| "parseStringBody acc [c] = (if c = 34 then Some (rev acc, []) else None)"
| "parseStringBody acc (c # e # r) =
     (if c = 34 then Some (rev acc, e # r)
      else if c = 92 then
        (if e = 117
         then (case hex4 (take 4 r) of
                 None \<Rightarrow> None
               | Some u \<Rightarrow> parseStringBody (u # acc) (drop 4 r))
         else (case unescapeUnit e of None \<Rightarrow> None | Some u \<Rightarrow> parseStringBody (u # acc) r))
      else if c < 32 then None
      else parseStringBody (c # acc) (e # r))"
  by pat_completeness auto
termination
  by (relation "measure (\<lambda>(acc, s). length s)") auto

fun parseDigits :: "nat \<Rightarrow> jsstring \<Rightarrow> nat \<times> jsstring" where
  "parseDigits acc [] = (acc, [])"
| "parseDigits acc (c # cs) =
     (if 48 \<le> c \<and> c \<le> 57 then parseDigits (10 * acc + (unat c - 48)) cs else (acc, c # cs))"

fun putMember :: "(jsstring \<times> jsval) list \<Rightarrow> jsstring \<Rightarrow> jsval \<Rightarrow> (jsstring \<times> jsval) list" where
  "putMember [] k v = [(k, v)]"
| "putMember ((k', v') # kvs) k v = (if k' = k then (k, v) # kvs else (k', v') # putMember kvs k v)"

fun parseValue :: "nat \<Rightarrow> jsstring \<Rightarrow> (jsval \<times> jsstring) option"
  and parseElements :: "nat \<Rightarrow> jsval list \<Rightarrow> jsstring \<Rightarrow> (jsval \<times> jsstring) option"
  and parseMembers :: "nat \<Rightarrow> (jsstring \<times> jsval) list \<Rightarrow> jsstring \<Rightarrow> (jsval \<times> jsstring) option" where
  "parseValue 0 s = None"
| "parseValue (Suc fuel) s =
     (case dropWhile isSpace s of
        [] \<Rightarrow> None
      | c # r \<Rightarrow>
         if c = 123 then
           (case dropWhile isSpace r of
              [] \<Rightarrow> None
            | d # r' \<Rightarrow> if d = 125 then Some (JObj [], r') else parseMembers fuel [] (d # r'))
         else if c = 91 then
           (case dropWhile isSpace r of
              [] \<Rightarrow> None
            | d # r' \<Rightarrow> if d = 93 then Some (JArr [], r') else parseElements fuel [] (d # r'))
         else if c = 34 then
           (case parseStringBody [] r of None \<Rightarrow> None | Some (str, r') \<Rightarrow> Some (JStr str, r'))
         else if c = 45 then
           (case r of
              [] \<Rightarrow> None
            | d # r' \<Rightarrow> if isDigit d
                       then (case parseDigits 0 (d # r') of (n, r'') \<Rightarrow> Some (JNum (- int n), r''))
                       else None)
         else if isDigit c then
           (case parseDigits 0 (c # r) of (n, r') \<Rightarrow> Some (JNum (int n), r'))
         else if take 4 (c # r) = ustr ''true'' then Some (JBool True, drop 3 r)
         else if take 5 (c # r) = ustr ''false'' then Some (JBool False, drop 4 r)
         else if take 4 (c # r) = ustr ''null'' then Some (JNull, drop 3 r)
         else None)"
| "parseElements 0 acc s = None"
| "parseElements (Suc fuel) acc s =
     (case parseValue fuel s of
        None \<Rightarrow> None
      | Some (v, r) \<Rightarrow>
         (case dropWhile isSpace r of
            [] \<Rightarrow> None
          | c # r' \<Rightarrow>
             if c = 44 then parseElements fuel (acc @ [v]) r'
             else if c = 93 then Some (JArr (acc @ [v]), r')
             else None))"
| "parseMembers 0 acc s = None"
| "parseMembers (Suc fuel) acc s =
     (case dropWhile isSpace s of
        [] \<Rightarrow> None
      | q # r \<Rightarrow>
         if q \<noteq> 34 then None
         else (case parseStringBody [] r of
                 None \<Rightarrow> None
               | Some (k, r1) \<Rightarrow>
                  (case dropWhile isSpace r1 of
                     [] \<Rightarrow> None
                   | c # r2 \<Rightarrow>
                      if c \<noteq> 58 then None
                      else (case parseValue fuel r2 of
                              None \<Rightarrow> None
                            | Some (v, r3) \<Rightarrow>
                               (case dropWhile isSpace r3 of
                                  [] \<Rightarrow> None
                                | e # r4 \<Rightarrow>
                                   if e = 44 then parseMembers fuel (putMember acc k v) r4
                                   else if e = 125 then Some (JObj (putMember acc k v), r4)
                                   else None)))))"

definition model_parse :: "jsstring \<Rightarrow> jsval option" where
  "model_parse raw =
     (case parseValue (Suc (length raw)) raw of
        None \<Rightarrow> None
      | Some (v, r) \<Rightarrow> if dropWhile isSpace r = [] then Some v else None)"

definition model_platform :: "jsstring \<Rightarrow> platform" where
  "model_platform r36 =
     \<lparr>JSON_parse = model_parse, JSON_stringify = model_stringify,
      URL_origin = model_origin, random_toString36 = r36\<rparr>"



section \<open>Sequences of deliveries\<close>

text \<open>
  The message callback run on the messages of a list in order, each with its arrival time
  \<open>Date.now()\<close>, its text and its source URL; the result lists what each delivery did.
  A delivery is dispatched when it called a handler.
\<close>

fun deliverAll ::
  "platform \<Rightarrow> 'h channel \<Rightarrow> (int \<times> jsstring \<times> jsstring) list \<Rightarrow> 'h effect list list" where
  "deliverAll pf ch [] = []"
| "deliverAll pf ch ((now, raw, sourceUrl) # ms) =
     snd (channelOnMessage pf ch now raw sourceUrl)
       # deliverAll pf (fst (channelOnMessage pf ch now raw sourceUrl)) ms"

fun isInvoke :: "'h effect \<Rightarrow> bool" where
  "isInvoke (Invoke fn d) = True"
| "isInvoke (SafeParse t p) = False"
| "isInvoke (ValidationError t p) = False"
| "isInvoke ThrowTypeError = False"

definition dispatched :: "'h effect list \<Rightarrow> bool" where
  "dispatched effs = list_ex isInvoke effs"

section \<open>Example schemas and options\<close>

text \<open>\<open>z.string()\<close>, and the options \<open>{ schemas: { ping: z.string() } }\<close>.\<close>

definition stringSchema :: schema where
  "stringSchema v = (case v of JStr s \<Rightarrow> Some v | _ \<Rightarrow> None)"

definition anySchema :: schema where
  "anySchema v = Some v"


definition pingOptions :: channelOptions where
  "pingOptions =
     \<lparr>schemas = [ustr ''ping'' \<mapsto> stringSchema], injectClient = None,
      onValidationError = False, trustedOrigins = None, maxMessageSize = None,
      rateLimit = None, maxListenersPerEvent = None, channelIdOpt = None\<rparr>"

text \<open>The channel that \<open>createChannel\<close> builds from options, on an open window.\<close>

definition channelOf :: "platform \<Rightarrow> channelOptions \<Rightarrow> nat channel" where
  "channelOf pf opts =
     \<lparr>options = opts, channelId = resolveChannelId pf (channelIdOpt opts),
      normalizedOrigins = normalizeOrigins pf (trustedOrigins opts),
      listeners = Map.empty, rateLimitWindow = []\<rparr>"

text \<open>
  The half-open interval of one second that starts at \<open>t\<close> (times in milliseconds).
\<close>

definition inWindow :: "int \<Rightarrow> int \<Rightarrow> bool" where
  "inWindow t a = (t \<le> a \<and> a < t + 1000)"

text \<open>
  The message of the first scenario of the specification, a source URL, and the channel
  made from given options with one handler, number 1, registered for \<open>ping\<close>.
\<close>

definition pingRaw :: jsstring where
  "pingRaw = ustr ''{\"$ch\":\"ping\",\"p\":\"hi\"}''"

definition appUrl :: jsstring where
  "appUrl = ustr ''https://app.local/a''"

definition pingChannel :: "channelOptions \<Rightarrow> nat channel" where
  "pingChannel opts = on (channelOf (model_platform []) opts) (ustr ''ping'') 1"

section \<open>Closed windows\<close>

lemma guarded_closed: "closed w \<Longrightarrow> guarded nv c w = (Inl WindowClosed, w)"
  by (simp add: guarded_def ensureOpen_def)

lemma invoke_closed: "closed w \<Longrightarrow> invoke nv m w = (Inl WindowClosed, w)"
  by (cases m)
     (simp_all add: guarded_closed loadUrl_def loadHtml_def postMessage_def setTitle_def
        setSize_def setMinSize_def setMaxSize_def setPosition_def setResizable_def
        setDecorations_def setAlwaysOnTop_def show_window_def hide_def focus_def
        maximize_def minimize_def unmaximize_def reload_def evaluateJs_def
        close_def getCookies_def unsafe_def ensureOpen_def)

lemma close_sets_flag: "closed (snd (close nv w))"
  by (simp add: close_def ensureOpen_def native_do_def)

lemma handleClose_sets_flag: "closed (handleClose w)"
  by (simp add: handleClose_def Let_def)

text \<open>
  C9. Once the flag is set (by \<open>close()\<close>, whether or not the native close succeeds,
  or by the native close event), every mutating method, \<open>getCookies\<close>, the \<open>unsafe\<close>
  getter and \<open>evaluateJs\<close> through a namespace object obtained earlier fail with the
  "Window is closed" error, and nothing reaches the native addon. \<open>close()\<close> sets the
  flag before the native call, so the flag is set even when that call throws, and a second
  \<open>close()\<close> fails without reaching the addon.
\<close>

theorem closed_window_fails:
  "(closed w \<longrightarrow> invoke nv m w = (Inl WindowClosed, w))
   \<and> invoke nv m (snd (close nv' w)) = (Inl WindowClosed, snd (close nv' w))
   \<and> invoke nv m (handleClose w) = (Inl WindowClosed, handleClose w)
   \<and> (\<not> closed w \<longrightarrow>
        snd (close nv' w) = (if nv' NClose then w\<lparr>closed := True, calls := calls w @ [NClose]\<rparr>
                              else w\<lparr>closed := True\<rparr>))
   \<and> (fst (unsafe w) = Inr () \<longrightarrow>
        evaluateJs nv script (snd (close nv' (snd (unsafe w))))
          = (Inl WindowClosed, snd (close nv' (snd (unsafe w)))))"
proof -
  have a: "closed w \<longrightarrow> invoke nv m w = (Inl WindowClosed, w)"
    by (simp add: invoke_closed)
  have b: "invoke nv m (snd (close nv' w)) = (Inl WindowClosed, snd (close nv' w))"
    by (rule invoke_closed) (rule close_sets_flag)
  have c: "invoke nv m (handleClose w) = (Inl WindowClosed, handleClose w)"
    by (rule invoke_closed) (rule handleClose_sets_flag)
  have d: "\<not> closed w \<longrightarrow>
        snd (close nv' w) = (if nv' NClose then w\<lparr>closed := True, calls := calls w @ [NClose]\<rparr>
                              else w\<lparr>closed := True\<rparr>)"
    by (simp add: close_def ensureOpen_def native_do_def)
  have e: "evaluateJs nv script (snd (close nv' (snd (unsafe w))))
          = (Inl WindowClosed, snd (close nv' (snd (unsafe w))))"
    unfolding evaluateJs_def by (rule guarded_closed) (rule close_sets_flag)
  from a b c d e show ?thesis by blast
qed

theorem closed_window_fails_witness:
  "closed (snd (close (\<lambda>_. True) new_window))
   \<and> invoke (\<lambda>_. True) (PostMessage (ustr ''hi'')) (snd (close (\<lambda>_. True) new_window))
       = (Inl WindowClosed, new_window\<lparr>closed := True, calls := [NClose]\<rparr>)
   \<and> invoke (\<lambda>_. True) Close (snd (close (\<lambda>_. False) new_window))
       = (Inl WindowClosed, new_window\<lparr>closed := True\<rparr>)
   \<and> fst (unsafe new_window) = Inr ()
   \<and> evaluateJs (\<lambda>_. True) (ustr ''1'') (snd (close (\<lambda>_. True) (snd (unsafe new_window))))
       = (Inl WindowClosed, new_window\<lparr>closed := True, unsafe_ns := True, calls := [NClose]\<rparr>)"
  using closed_window_fails [of "snd (close (\<lambda>_. True) new_window)" "\<lambda>_. True"
      "PostMessage (ustr ''hi'')" "\<lambda>_. True" "ustr ''1''"]
    closed_window_fails [of new_window "\<lambda>_. True" Close "\<lambda>_. False" "ustr ''1''"]
  by (simp add: close_def ensureOpen_def native_do_def new_window_def unsafe_def
      handleClose_def postMessage_def guarded_def evaluateJs_def)

section \<open>Outgoing messages\<close>

text \<open>
  C4 (as stated, refuted). \<open>send\<close> has no run-time check of the type against the schema
  map: with the schemas \<open>{ ping }\<close>, \<open>send("typo", 123)\<close> encodes the envelope and posts
  it to the window. Only the compile-time type of \<open>send\<close> excludes the call.
\<close>

theorem send_unknown_type_counterexample:
  "schemas (options (channelOf (model_platform []) pingOptions)) (ustr ''typo'') = None
   \<and> send (\<lambda>_. True) (model_platform []) (channelOf (model_platform []) pingOptions)
         (ustr ''typo'') (JNum 123) new_window
       = (Inr (), new_window\<lparr>calls := [NPostMessage (ustr ''{\"$ch\":\"typo\",\"p\":123}'')]\<rparr>)"
proof (rule conjI)
  show "schemas (options (channelOf (model_platform []) pingOptions)) (ustr ''typo'') = None"
    by (simp add: channelOf_def pingOptions_def ustr_def)
  show "send (\<lambda>_. True) (model_platform []) (channelOf (model_platform []) pingOptions)
         (ustr ''typo'') (JNum 123) new_window
       = (Inr (), new_window\<lparr>calls := [NPostMessage (ustr ''{\"$ch\":\"typo\",\"p\":123}'')]\<rparr>)"
    by code_simp
qed

text \<open>
  C4 (amended). For every string \<open>type\<close>, schema key or not, and every payload,
  \<open>send(type, payload)\<close> on an open window posts exactly one message, the JSON text of
  \<open>{$ch: prefixCh(type), p: payload}\<close>; on a closed window it fails with the closed-window
  error; the schema map plays no part.
\<close>

theorem send_posts_every_type:
  "send nv pf ch type payload win =
     (if closed win then (Inl WindowClosed, win)
      else if nv (NPostMessage (JSON_stringify pf
                (JObj [(ustr ''$ch'', JStr (prefixCh (channelId ch) type)), (ustr ''p'', payload)])))
      then (Inr (), win\<lparr>calls := calls win @ [NPostMessage (JSON_stringify pf
                (JObj [(ustr ''$ch'', JStr (prefixCh (channelId ch) type)), (ustr ''p'', payload)]))]\<rparr>)
      else (Inl NativeFailure, win))"
  by (simp add: send_def encode_def postMessage_def guarded_def ensureOpen_def native_do_def)

theorem send_posts_every_type_witness:
  "send (\<lambda>_. True) (model_platform []) (channelOf (model_platform []) pingOptions)
     (ustr ''typo'') (JNum 123) (new_window\<lparr>closed := True\<rparr>)
     = (Inl WindowClosed, new_window\<lparr>closed := True\<rparr>)
   \<and> fst (send (\<lambda>_. True) (model_platform []) (channelOf (model_platform []) pingOptions)
     (ustr ''typo'') (JNum 123) new_window) = Inr ()"
  using send_posts_every_type [of "\<lambda>_. True" "model_platform []"
      "channelOf (model_platform []) pingOptions" "ustr ''typo''" "JNum 123"
      "new_window\<lparr>closed := True\<rparr>"]
    send_posts_every_type [of "\<lambda>_. True" "model_platform []"
      "channelOf (model_platform []) pingOptions" "ustr ''typo''" "JNum 123" new_window]
  by (simp add: new_window_def)

section \<open>Channel id\<close>

text \<open>
  C8. A literal \<open>channelId\<close> is kept as given and an absent one gives the empty prefix.
  With \<open>channelId: true\<close> the nonce is \<open>Math.random().toString(36).slice(2, 10)\<close>, which
  has fewer than eight characters whenever the base-36 expansion is short: for the outcome
  0.5 the string is \<open>"0.i"\<close> and the nonce \<open>"i"\<close>; for the outcome 0 the string is
  \<open>"0"\<close> and the nonce is empty, which is the unprefixed format.
\<close>

theorem auto_channelId_short_nonce:
  "resolveChannelId pf (Some (IdString s)) = s
   \<and> resolveChannelId pf None = []
   \<and> resolveChannelId (model_platform (ustr ''0.i'')) (Some IdTrue) = ustr ''i''
   \<and> resolveChannelId (model_platform (ustr ''0'')) (Some IdTrue) = []
   \<and> prefixCh (resolveChannelId (model_platform (ustr ''0'')) (Some IdTrue)) type = type"
  by (simp add: resolveChannelId_def model_platform_def slice_def ustr_def prefixCh_def)

theorem auto_channelId_short_nonce_witness:
  "length (resolveChannelId (model_platform (ustr ''0.i'')) (Some IdTrue)) = 1
   \<and> resolveChannelId (model_platform []) (Some (IdString (ustr ''Ns''))) = ustr ''Ns''"
  using auto_channelId_short_nonce [of "model_platform []" "ustr ''Ns''" "[]"]
  by (simp add: ustr_def)

section \<open>Trusted origins\<close>

lemma normalizeOrigin_not_null: "normalizeOrigin pf x = Some y \<Longrightarrow> y \<noteq> ustr ''null''"
  by (auto simp: normalizeOrigin_def split: option.splits if_splits)

lemma normalizeOrigin_is_origin: "normalizeOrigin pf x = Some y \<Longrightarrow> URL_origin pf x = Some y"
  by (auto simp: normalizeOrigin_def split: option.splits if_splits)

lemma set_map_filter: "set (List.map_filter f xs) = {y. \<exists>x \<in> set xs. f x = Some y}"
  by (induction xs) (auto split: option.splits)

text \<open>
  With at least one entry of \<open>trustedOrigins\<close> that parses to a tuple origin, the gate is
  as the documentation describes it: a message whose source URL does not parse, or whose
  origin is none of the normalized entries, has no effect.
\<close>

lemma origin_gate_closed:
  assumes "normalizedOrigins ch = Some ts" "ts \<noteq> []"
    and "\<forall>o'. URL_origin pf sourceUrl = Some o' \<longrightarrow> o' \<notin> set ts"
  shows "snd (channelOnMessage pf ch now raw sourceUrl) = []"
proof -
  from assms have "\<not> originGateOpen pf (normalizedOrigins ch) sourceUrl"
    by (auto simp: originGateOpen_def isOriginTrusted_def split: option.splits)
  then show ?thesis
    by (auto simp: channelOnMessage_def split: prod.splits bool.splits option.splits jsval.splits)
qed

lemma origin_app_local: "model_origin (ustr ''app.local'') = None"
  by code_simp

text \<open>
  C1. The gate is skipped when \<open>normalizedOrigins\<close> is empty, and an entry of
  \<open>trustedOrigins\<close> that \<open>new URL\<close> rejects is dropped from it. A channel created with
  \<open>trustedOrigins: ["app.local"]\<close>, a non-empty list, has no normalized entry, and a
  message from \<open>https://evil.com/\<close> reaches the handler registered for \<open>ping\<close>.
\<close>

theorem origin_gate_fails_open:
  "trustedOrigins (pingOptions\<lparr>trustedOrigins := Some [ustr ''app.local'']\<rparr>) \<noteq> Some []
   \<and> normalizedOrigins
        (channelOf (model_platform []) (pingOptions\<lparr>trustedOrigins := Some [ustr ''app.local'']\<rparr>))
       = Some []
   \<and> model_origin (ustr ''https://evil.com/'') = Some (ustr ''https://evil.com'')
   \<and> snd (channelOnMessage (model_platform [])
         (on (channelOf (model_platform [])
                (pingOptions\<lparr>trustedOrigins := Some [ustr ''app.local'']\<rparr>))
             (ustr ''ping'') 1)
         0 (ustr ''{\"$ch\":\"ping\",\"p\":\"hi\"}'') (ustr ''https://evil.com/''))
       = [SafeParse (ustr ''ping'') (JStr (ustr ''hi'')), Invoke 1 (JStr (ustr ''hi''))]"
  by code_simp

theorem origin_gate_fails_open_witness:
  "Invoke 1 (JStr (ustr ''hi''))
     \<in> set (snd (channelOnMessage (model_platform [])
         (on (channelOf (model_platform [])
                (pingOptions\<lparr>trustedOrigins := Some [ustr ''app.local'']\<rparr>))
             (ustr ''ping'') 1)
         0 (ustr ''{\"$ch\":\"ping\",\"p\":\"hi\"}'') (ustr ''https://evil.com/'')))"
  using origin_gate_fails_open by simp

text \<open>
  With a normalized entry, the client script is not injected by \<open>createChannel\<close>, and a
  finished page load injects it only for a URL whose origin is one of the entries.
\<close>

lemma injection_deferred:
  assumes "normalizeOrigins pf (trustedOrigins opts) = Some ts" "ts \<noteq> []"
  shows "\<forall>script. NEvaluateJs script \<notin> set (calls win) \<longrightarrow>
           NEvaluateJs script \<notin> set (calls (snd (createChannel nv pf opts win :: 'h channel outcome)))"
  using assms
  by (auto simp: createChannel_def onMessage_def onPageLoad_def guarded_def native_do_def
      ensureOpen_def Let_def split: prod.splits sum.splits option.splits if_splits)

lemma page_load_gated:
  assumes "normalizedOrigins ch = Some ts" "ts \<noteq> []"
    and "\<forall>o'. URL_origin pf url = Some o' \<longrightarrow> o' \<notin> set ts"
  shows "channelOnPageLoad nv pf ch event url win = (Inr (), win)"
  using assms
  by (auto simp: channelOnPageLoad_def originGateOpen_def isOriginTrusted_def
      split: option.splits)

text \<open>
  C3. With \<open>injectClient\<close> left at its default and \<open>trustedOrigins: ["app.local"]\<close>, a
  non-empty list supplied by the user, \<open>createChannel\<close> injects the client script at once
  (the second native call), and a finished load of \<open>https://evil.com/\<close> injects it again:
  the deferral is decided on \<open>normalizedOrigins\<close>, which is empty here.
\<close>

theorem injection_not_deferred:
  "snd (createChannel (\<lambda>_. True) (model_platform [])
          (pingOptions\<lparr>trustedOrigins := Some [ustr ''app.local'']\<rparr>) new_window
        :: nat channel outcome)
     = new_window\<lparr>unsafe_ns := True,
         calls := [NOnMessage, NEvaluateJs (getClientScript (model_platform []) None),
                   NOnPageLoad]\<rparr>
   \<and> channelOnPageLoad (\<lambda>_. True) (model_platform [])
        (channelOf (model_platform []) (pingOptions\<lparr>trustedOrigins := Some [ustr ''app.local'']\<rparr>))
        Finished (ustr ''https://evil.com/'') new_window
     = (Inr (), new_window\<lparr>unsafe_ns := True,
         calls := [NEvaluateJs (getClientScript (model_platform []) None)]\<rparr>)"
  by (simp add: createChannel_def channelOnPageLoad_def channelOf_def pingOptions_def
      model_platform_def normalizeOrigins_def normalizeOrigin_def origin_app_local
      resolveChannelId_def onMessage_def onPageLoad_def
      injectClientScript_def unsafe_def evaluateJs_def guarded_def ensureOpen_def
      native_do_def new_window_def originGateOpen_def)

theorem injection_not_deferred_witness:
  "NEvaluateJs (getClientScript (model_platform []) None)
     \<in> set (calls (snd (createChannel (\<lambda>_. True) (model_platform [])
          (pingOptions\<lparr>trustedOrigins := Some [ustr ''app.local'']\<rparr>) new_window
        :: nat channel outcome)))"
  using injection_not_deferred by simp

section \<open>JSON texts\<close>
































lemma stringifyMembers_skip:
  "stringifyMembers (filter (\<lambda>kv. snd kv \<noteq> JUndefined) kvs) = stringifyMembers kvs"
  by (induction kvs) auto

lemma model_stringify_skip:
  "model_stringify (JObj (filter (\<lambda>kv. snd kv \<noteq> JUndefined) kvs)) = model_stringify (JObj kvs)"
  by (simp add: stringifyMembers_skip)

section \<open>Envelopes\<close>

lemma map_of_filter_other:
  "k \<noteq> K \<Longrightarrow> map_of (filter (\<lambda>kv. fst kv \<noteq> K) kvs) k = map_of kvs k"
  by (induction kvs) auto

lemma map_of_filter_same: "map_of (filter (\<lambda>kv. fst kv \<noteq> K) kvs) K = None"
  by (induction kvs) auto

lemma get_prop_delete_proto:
  "k \<noteq> ustr ''__proto__'' \<Longrightarrow> get_prop k (delete_proto v) = get_prop k v"
  by (cases v) (simp_all add: get_prop_def delete_proto_def map_of_filter_other)

lemma get_proto_deleted: "get_prop (ustr ''__proto__'') (delete_proto v) = JUndefined"
  by (cases v) (simp_all add: get_prop_def delete_proto_def map_of_filter_same)

lemma isEnvelope_iff: "isEnvelope v \<longleftrightarrow> (\<exists>c. get_prop (ustr ''$ch'') v = JStr c)"
  by (cases v) (auto simp: isEnvelope_def get_prop_def split: option.splits jsval.splits)

lemma ch_not_proto: "ustr ''$ch'' \<noteq> ustr ''__proto__''" "ustr ''p'' \<noteq> ustr ''__proto__''"
  by (simp_all add: ustr_def)

lemma isEnvelope_delete_proto: "isEnvelope (delete_proto v) = isEnvelope v"
  by (simp add: isEnvelope_iff get_prop_delete_proto ch_not_proto)

lemma decode_None_no_effect:
  "decode pf raw (maxMessageSize (options ch)) = None
   \<Longrightarrow> snd (channelOnMessage pf ch now raw sourceUrl) = []"
  by (auto simp: channelOnMessage_def split: prod.splits bool.splits)

lemma inSchemas_own: "m k = Some schema \<Longrightarrow> inSchemas m k"
  by (simp add: inSchemas_def)

text \<open>
  A name inherited from \<open>Object.prototype\<close> passes the \<open>in\<close> test without being a
  schema key: \<open>on("toString", h)\<close> registers the handler, and a message of that type
  makes the message callback throw before any handler is called.
\<close>

lemma inherited_name_throws:
  "schemas pingOptions (ustr ''toString'') = None
   \<and> listeners (on (channelOf (model_platform []) pingOptions) (ustr ''toString'') 1)
         (ustr ''toString'') = Some [1]
   \<and> snd (channelOnMessage (model_platform [])
         (on (channelOf (model_platform []) pingOptions) (ustr ''toString'') 1)
         0 (ustr ''{\"$ch\":\"toString\",\"p\":1}'') appUrl) = [ThrowTypeError]"
proof (intro conjI)
  show "schemas pingOptions (ustr ''toString'') = None"
    by (simp add: pingOptions_def ustr_def)
  show "listeners (on (channelOf (model_platform []) pingOptions) (ustr ''toString'') 1)
         (ustr ''toString'') = Some [1]"
    by code_simp
  show "snd (channelOnMessage (model_platform [])
         (on (channelOf (model_platform []) pingOptions) (ustr ''toString'') 1)
         0 (ustr ''{\"$ch\":\"toString\",\"p\":1}'') appUrl) = [ThrowTypeError]"
    by code_simp
qed

text \<open>
  \<open>decode\<close> of a text within the size cap that parses to a value with a string \<open>$ch\<close>:
  the parsed value without its own \<open>__proto__\<close> property, whatever else it holds.
\<close>

lemma decode_envelope:
  assumes "JSON_parse pf raw = Some v" "get_prop (ustr ''$ch'') v = JStr c"
    and "real (length raw) \<le> (case m of None \<Rightarrow> MAX_MESSAGE_SIZE | Some x \<Rightarrow> x)"
  shows "decode pf raw m = Some (delete_proto v)"
proof -
  have "isEnvelope (delete_proto v)"
    using assms(2) by (simp add: isEnvelope_iff get_prop_delete_proto ch_not_proto)
  then show ?thesis using assms(1,3) by (simp add: decode_def)
qed

text \<open>
  A delivery that passes the rate limiter, \<open>decode\<close>, the channel prefix and the origin
  gate, for a type with listeners and a schema: \<open>safeParse\<close> is called on the payload of
  the envelope, and then either the validation-error callback or the handlers.
\<close>

lemma deliver_envelope:
  assumes "decode pf raw (maxMessageSize (options ch)) = Some env"
    and "get_prop (ustr ''$ch'') env = JStr c"
    and "fst (rateLimitStep (rateLimit (options ch)) (rateLimitWindow ch) now)"
    and "unprefixCh (channelId ch) c = Some t"
    and "originGateOpen pf (normalizedOrigins ch) sourceUrl"
    and "listeners ch t = Some hs" "schemas (options ch) t = Some schema"
  shows "snd (channelOnMessage pf ch now raw sourceUrl)
           = SafeParse t (get_prop (ustr ''p'') env)
             # (case schema (get_prop (ustr ''p'') env) of
                  None \<Rightarrow> (if onValidationError (options ch)
                            then [ValidationError t (get_prop (ustr ''p'') env)] else [])
                | Some data \<Rightarrow> map (\<lambda>fn. Invoke fn data) hs)"
proof -
  obtain w1 where r: "rateLimitStep (rateLimit (options ch)) (rateLimitWindow ch) now = (True, w1)"
    using assms(3)
    by (cases "rateLimitStep (rateLimit (options ch)) (rateLimitWindow ch) now") auto
  show ?thesis
    using assms(1,2,4,5,6,7) r inSchemas_own [of "schemas (options ch)" t schema, OF assms(7)]
    by (simp add: channelOnMessage_def validatePayload_def split: option.splits)
qed

text \<open>
  C2 (amended). A message whose text does not parse, or whose parsed value has no \<open>$ch\<close>
  or a \<open>$ch\<close> that is not a string, is dropped before any schema is looked up: no
  \<open>safeParse\<close> call, no validation-error callback, no handler. A \<open>__proto__\<close> key is no
  ground for rejection. Every text within the size cap that parses to a value with a
  string \<open>$ch\<close> is decoded, whatever keys the value has at the top level or inside its
  payload: the decoded envelope is the parsed value without its own \<open>__proto__\<close>
  property, with \<open>$ch\<close> and the payload \<open>p\<close> as parsed, so that a \<open>__proto__\<close> key
  inside \<open>p\<close> stays where it is. When the rate limiter admits such a message, its \<open>$ch\<close>
  carries the channel prefix, the origin gate lets it through and its type has listeners
  and a schema, \<open>safeParse\<close> is called on the payload as parsed, and then the handlers
  with the validated data, or the validation-error callback. Whether a value is an
  envelope does not depend on the deleted key.
\<close>

theorem envelope_rejection:
  "(JSON_parse pf raw = None \<longrightarrow> snd (channelOnMessage pf ch now raw sourceUrl) = [])
   \<and> (JSON_parse pf raw = Some v \<and> (\<forall>c. get_prop (ustr ''$ch'') v \<noteq> JStr c)
        \<longrightarrow> snd (channelOnMessage pf ch now raw sourceUrl) = [])
   \<and> (JSON_parse pf raw = Some v \<and> decode pf raw m = Some env
        \<longrightarrow> env = delete_proto v
          \<and> get_prop (ustr ''__proto__'') env = JUndefined
          \<and> get_prop (ustr ''$ch'') env = get_prop (ustr ''$ch'') v
          \<and> get_prop (ustr ''p'') env = get_prop (ustr ''p'') v)
   \<and> (JSON_parse pf raw = Some v \<and> get_prop (ustr ''$ch'') v = JStr c
        \<and> real (length raw) \<le> (case m of None \<Rightarrow> MAX_MESSAGE_SIZE | Some x \<Rightarrow> x)
        \<longrightarrow> decode pf raw m = Some (delete_proto v))
   \<and> (JSON_parse pf raw = Some v \<and> get_prop (ustr ''$ch'') v = JStr c
        \<and> real (length raw)
             \<le> (case maxMessageSize (options ch) of None \<Rightarrow> MAX_MESSAGE_SIZE | Some x \<Rightarrow> x)
        \<and> fst (rateLimitStep (rateLimit (options ch)) (rateLimitWindow ch) now)
        \<and> unprefixCh (channelId ch) c = Some t
        \<and> originGateOpen pf (normalizedOrigins ch) sourceUrl
        \<and> listeners ch t = Some hs \<and> schemas (options ch) t = Some schema
        \<longrightarrow> snd (channelOnMessage pf ch now raw sourceUrl)
             = SafeParse t (get_prop (ustr ''p'') v)
               # (case schema (get_prop (ustr ''p'') v) of
                    None \<Rightarrow> (if onValidationError (options ch)
                              then [ValidationError t (get_prop (ustr ''p'') v)] else [])
                  | Some data \<Rightarrow> map (\<lambda>fn. Invoke fn data) hs))
   \<and> isEnvelope (delete_proto v) = isEnvelope v"
proof -
  have a: "JSON_parse pf raw = None \<longrightarrow> snd (channelOnMessage pf ch now raw sourceUrl) = []"
    by (auto intro!: decode_None_no_effect simp: decode_def)
  have b: "JSON_parse pf raw = Some v \<and> (\<forall>c. get_prop (ustr ''$ch'') v \<noteq> JStr c)
        \<longrightarrow> snd (channelOnMessage pf ch now raw sourceUrl) = []"
    by (auto intro!: decode_None_no_effect
        simp: decode_def Let_def isEnvelope_iff get_prop_delete_proto ch_not_proto)
  have c: "JSON_parse pf raw = Some v \<and> decode pf raw m = Some env
        \<longrightarrow> env = delete_proto v
          \<and> get_prop (ustr ''__proto__'') env = JUndefined
          \<and> get_prop (ustr ''$ch'') env = get_prop (ustr ''$ch'') v
          \<and> get_prop (ustr ''p'') env = get_prop (ustr ''p'') v"
    by (auto simp: decode_def Let_def get_proto_deleted get_prop_delete_proto ch_not_proto
        split: if_splits)
  have d: "JSON_parse pf raw = Some v \<and> get_prop (ustr ''$ch'') v = JStr c
        \<and> real (length raw) \<le> (case m of None \<Rightarrow> MAX_MESSAGE_SIZE | Some x \<Rightarrow> x)
        \<longrightarrow> decode pf raw m = Some (delete_proto v)"
    using decode_envelope [of pf raw v c m] by blast
  have e: "JSON_parse pf raw = Some v \<and> get_prop (ustr ''$ch'') v = JStr c
        \<and> real (length raw)
             \<le> (case maxMessageSize (options ch) of None \<Rightarrow> MAX_MESSAGE_SIZE | Some x \<Rightarrow> x)
        \<and> fst (rateLimitStep (rateLimit (options ch)) (rateLimitWindow ch) now)
        \<and> unprefixCh (channelId ch) c = Some t
        \<and> originGateOpen pf (normalizedOrigins ch) sourceUrl
        \<and> listeners ch t = Some hs \<and> schemas (options ch) t = Some schema
        \<longrightarrow> snd (channelOnMessage pf ch now raw sourceUrl)
             = SafeParse t (get_prop (ustr ''p'') v)
               # (case schema (get_prop (ustr ''p'') v) of
                    None \<Rightarrow> (if onValidationError (options ch)
                              then [ValidationError t (get_prop (ustr ''p'') v)] else [])
                  | Some data \<Rightarrow> map (\<lambda>fn. Invoke fn data) hs)"
  proof (intro impI, elim conjE)
    assume h: "JSON_parse pf raw = Some v" "get_prop (ustr ''$ch'') v = JStr c"
      "real (length raw)
         \<le> (case maxMessageSize (options ch) of None \<Rightarrow> MAX_MESSAGE_SIZE | Some x \<Rightarrow> x)"
      "fst (rateLimitStep (rateLimit (options ch)) (rateLimitWindow ch) now)"
      "unprefixCh (channelId ch) c = Some t"
      "originGateOpen pf (normalizedOrigins ch) sourceUrl"
      "listeners ch t = Some hs" "schemas (options ch) t = Some schema"
    have dec: "decode pf raw (maxMessageSize (options ch)) = Some (delete_proto v)"
      using h(1,2,3) by (rule decode_envelope)
    have c': "get_prop (ustr ''$ch'') (delete_proto v) = JStr c"
      using h(2) by (simp add: get_prop_delete_proto ch_not_proto)
    have p': "get_prop (ustr ''p'') (delete_proto v) = get_prop (ustr ''p'') v"
      by (simp add: get_prop_delete_proto ch_not_proto)
    from deliver_envelope [OF dec c' h(4) h(5) h(6) h(7) h(8)]
    show "snd (channelOnMessage pf ch now raw sourceUrl)
             = SafeParse t (get_prop (ustr ''p'') v)
               # (case schema (get_prop (ustr ''p'') v) of
                    None \<Rightarrow> (if onValidationError (options ch)
                              then [ValidationError t (get_prop (ustr ''p'') v)] else [])
                  | Some data \<Rightarrow> map (\<lambda>fn. Invoke fn data) hs)"
      by (simp only: p')
  qed
  from a b c d e show ?thesis by (simp only: isEnvelope_delete_proto simp_thms)
qed

text \<open>
  C2 (as stated, refuted). A message with a \<open>__proto__\<close> key inside its payload is
  validated and delivered with the key still in the payload, and a message with a
  \<open>__proto__\<close> key at the top level is validated and delivered as well.
\<close>

theorem proto_key_not_rejected:
  "snd (channelOnMessage (model_platform [])
         (on (channelOf (model_platform []) (pingOptions\<lparr>schemas := [ustr ''ping'' \<mapsto> anySchema]\<rparr>))
             (ustr ''ping'') 1)
         0 (ustr ''{\"$ch\":\"ping\",\"p\":{\"x\":1,\"__proto__\":{\"polluted\":true}}}'')
         (ustr ''https://app.local/a''))
     = [SafeParse (ustr ''ping'')
          (JObj [(ustr ''x'', JNum 1),
                 (ustr ''__proto__'', JObj [(ustr ''polluted'', JBool True)])]),
        Invoke 1
          (JObj [(ustr ''x'', JNum 1),
                 (ustr ''__proto__'', JObj [(ustr ''polluted'', JBool True)])])]
   \<and> snd (channelOnMessage (model_platform [])
         (on (channelOf (model_platform []) pingOptions) (ustr ''ping'') 1)
         0 (ustr ''{\"__proto__\":{\"a\":1},\"$ch\":\"ping\",\"p\":\"hi\"}'')
         (ustr ''https://app.local/a''))
     = [SafeParse (ustr ''ping'') (JStr (ustr ''hi'')), Invoke 1 (JStr (ustr ''hi''))]"
  by code_simp

lemma pingChannel_plain:
  "options (pingChannel pingOptions) = pingOptions"
  "channelId (pingChannel pingOptions) = []"
  "normalizedOrigins (pingChannel pingOptions) = None"
  "listeners (pingChannel pingOptions) (ustr ''ping'') = Some [1]"
  "rateLimitWindow (pingChannel pingOptions) = []"
  by (simp_all add: pingChannel_def on_def channelOf_def pingOptions_def Let_def
      resolveChannelId_def normalizeOrigins_def inSchemas_def)

theorem envelope_rejection_witness:
  "model_parse (ustr ''{\"$ch\":5,\"p\":\"hi\"}'')
      = Some (JObj [(ustr ''$ch'', JNum 5), (ustr ''p'', JStr (ustr ''hi''))])
   \<and> snd (channelOnMessage (model_platform []) (pingChannel pingOptions)
         0 (ustr ''{\"$ch\":5,\"p\":\"hi\"}'') appUrl) = []
   \<and> model_parse (ustr ''{\"__proto__\":{\"a\":1},\"$ch\":\"ping\",\"p\":\"hi\"}'')
      = Some (JObj [(ustr ''__proto__'', JObj [(ustr ''a'', JNum 1)]),
                    (ustr ''$ch'', JStr (ustr ''ping'')), (ustr ''p'', JStr (ustr ''hi''))])
   \<and> snd (channelOnMessage (model_platform []) (pingChannel pingOptions)
         0 (ustr ''{\"__proto__\":{\"a\":1},\"$ch\":\"ping\",\"p\":\"hi\"}'') appUrl)
      = [SafeParse (ustr ''ping'') (JStr (ustr ''hi'')), Invoke 1 (JStr (ustr ''hi''))]"
proof -
  let ?pf = "model_platform []"
  let ?ch = "pingChannel pingOptions"
  let ?r1 = "ustr ''{\"$ch\":5,\"p\":\"hi\"}''"
  let ?v1 = "JObj [(ustr ''$ch'', JNum 5), (ustr ''p'', JStr (ustr ''hi''))]"
  let ?r2 = "ustr ''{\"__proto__\":{\"a\":1},\"$ch\":\"ping\",\"p\":\"hi\"}''"
  let ?v2 = "JObj [(ustr ''__proto__'', JObj [(ustr ''a'', JNum 1)]),
                   (ustr ''$ch'', JStr (ustr ''ping'')), (ustr ''p'', JStr (ustr ''hi''))]"
  have p1: "model_parse ?r1 = Some ?v1" by code_simp
  have q1: "\<forall>c. get_prop (ustr ''$ch'') ?v1 \<noteq> JStr c" by (simp add: get_prop_def)
  have p2: "model_parse ?r2 = Some ?v2" by code_simp
  have c2: "get_prop (ustr ''$ch'') ?v2 = JStr (ustr ''ping'')"
    by (simp add: get_prop_def ustr_def)
  have g2: "get_prop (ustr ''p'') ?v2 = JStr (ustr ''hi'')"
    by (simp add: get_prop_def ustr_def)
  have size: "real (length ?r2)
      \<le> (case maxMessageSize (options ?ch) of None \<Rightarrow> MAX_MESSAGE_SIZE | Some x \<Rightarrow> x)"
    unfolding pingChannel_plain by (simp add: pingOptions_def MAX_MESSAGE_SIZE_def ustr_def)
  have rate: "fst (rateLimitStep (rateLimit (options ?ch)) (rateLimitWindow ?ch) 0)"
    unfolding pingChannel_plain by (simp add: pingOptions_def rateLimitStep_def)
  have un: "unprefixCh (channelId ?ch) (ustr ''ping'') = Some (ustr ''ping'')"
    by (simp add: pingChannel_plain unprefixCh_def)
  have gate: "originGateOpen ?pf (normalizedOrigins ?ch) appUrl"
    by (simp add: pingChannel_plain originGateOpen_def)
  have sch: "schemas (options ?ch) (ustr ''ping'') = Some stringSchema"
    unfolding pingChannel_plain by (simp add: pingOptions_def)
  have val: "stringSchema (JStr (ustr ''hi'')) = Some (JStr (ustr ''hi''))"
    by (simp add: stringSchema_def)
  have e1: "snd (channelOnMessage ?pf ?ch 0 ?r1 appUrl) = []"
    using envelope_rejection [of ?pf ?r1 ?ch 0 appUrl ?v1] p1 q1
    by (simp add: model_platform_def)
  have e2: "snd (channelOnMessage ?pf ?ch 0 ?r2 appUrl)
      = [SafeParse (ustr ''ping'') (JStr (ustr ''hi'')), Invoke 1 (JStr (ustr ''hi''))]"
    using envelope_rejection [of ?pf ?r2 ?ch 0 appUrl ?v2 None "delete_proto ?v2"
        "ustr ''ping''" "ustr ''ping''" "[1]" stringSchema]
      p2 c2 size rate un gate sch
    by (simp add: model_platform_def pingChannel_plain g2 val)
  from p1 e1 p2 e2 show ?thesis by (intro conjI)
qed





lemma parse_pingRaw:
  "model_parse pingRaw
     = Some (JObj [(ustr ''$ch'', JStr (ustr ''ping'')), (ustr ''p'', JStr (ustr ''hi''))])"
  by code_simp





section \<open>Rate limiting\<close>

lemma shiftExpired_filter:
  "sorted w \<Longrightarrow> shiftExpired now w = filter (\<lambda>a. now - 1000 < a) w"
proof (induction w)
  case Nil
  then show ?case by simp
next
  case (Cons a w)
  show ?case
  proof (cases "a \<le> now - 1000")
    case True
    with Cons show ?thesis by simp
  next
    case False
    with Cons.prems have "\<forall>x \<in> set (a # w). now - 1000 < x" by auto
    then have "filter (\<lambda>a. now - 1000 < a) (a # w) = a # w"
      by (simp only: filter_True)
    with False show ?thesis by simp
  qed
qed

lemma onMessage_window:
  "rateLimitWindow (fst (channelOnMessage pf ch now raw url))
     = snd (rateLimitStep (rateLimit (options ch)) (rateLimitWindow ch) now)"
  by (auto simp: channelOnMessage_def split: prod.splits bool.splits option.splits jsval.splits)

lemma onMessage_options:
  "options (fst (channelOnMessage pf ch now raw url)) = options ch"
  by (auto simp: channelOnMessage_def split: prod.splits bool.splits option.splits jsval.splits)

lemma onMessage_limited:
  "\<not> fst (rateLimitStep (rateLimit (options ch)) (rateLimitWindow ch) now)
   \<Longrightarrow> snd (channelOnMessage pf ch now raw url) = []"
  by (auto simp: channelOnMessage_def split: prod.splits bool.splits)

lemma no_later_dispatch:
  assumes "\<forall>m \<in> set msgs. t + 1000 \<le> fst m"
  shows "filter (\<lambda>(m, effs). inWindow t (fst m) \<and> dispatched effs) (zip msgs xs) = []"
proof -
  have "\<not> (case z of (m, effs) \<Rightarrow> inWindow t (fst m) \<and> dispatched effs)"
    if "z \<in> set (zip msgs xs)" for z
  proof -
    obtain m effs where z: "z = (m, effs)" by (cases z) auto
    with that have "m \<in> set msgs" by (auto dest: set_zip_leftD)
    with assms have "t + 1000 \<le> fst m" by blast
    then show ?thesis by (simp add: z inWindow_def)
  qed
  then show ?thesis unfolding filter_empty_conv by blast
qed

lemma rate_bound_gen:
  assumes "rateLimit (options ch) = Some r" "0 < r"
    and "sorted (rateLimitWindow ch @ map fst msgs)"
    and "int (length (rateLimitWindow ch)) \<le> \<lceil>r\<rceil>"
  shows "int (length (filter (inWindow t) (rateLimitWindow ch)))
         + int (length (filter (\<lambda>(m, effs). inWindow t (fst m) \<and> dispatched effs)
                  (zip msgs (deliverAll pf ch msgs)))) \<le> \<lceil>r\<rceil>"
  using assms
proof (induction msgs arbitrary: ch)
  case Nil
  have "length (filter (inWindow t) (rateLimitWindow ch)) \<le> length (rateLimitWindow ch)"
    by simp
  with Nil.prems(4) show ?case by (simp del: length_filter_le)
next
  case (Cons msg msgs)
  obtain now raw url where msg: "msg = (now, raw, url)" by (cases msg) auto
  let ?w = "rateLimitWindow ch"
  let ?w1 = "shiftExpired now ?w"
  let ?ch' = "fst (channelOnMessage pf ch now raw url)"
  let ?effs = "snd (channelOnMessage pf ch now raw url)"
  let ?rest = "filter (\<lambda>(m, effs). inWindow t (fst m) \<and> dispatched effs)
                  (zip msgs (deliverAll pf ?ch' msgs))"
  from Cons.prems(3) msg have sw: "sorted ?w" and w_le: "\<forall>a \<in> set ?w. a \<le> now"
    and smsgs: "sorted (map fst msgs)" and now_le: "\<forall>m \<in> set msgs. now \<le> fst m"
    by (auto simp: sorted_append)
  have w1: "?w1 = filter (\<lambda>a. now - 1000 < a) ?w" using sw by (rule shiftExpired_filter)
  have opts': "rateLimit (options ?ch') = Some r"
    using Cons.prems(1) by (simp add: onMessage_options)
  have lenw1: "length ?w1 \<le> length ?w" by (simp add: w1)
  have sw1: "sorted ?w1" unfolding w1 using sw by (rule sorted_wrt_filter)
  have w1_le: "\<forall>a \<in> set ?w1. a \<le> now" using w_le by (simp add: w1)
  have cross: "\<forall>a \<in> set ?w1. \<forall>b \<in> set (map fst msgs). a \<le> b"
    using w1_le now_le by fastforce
  show ?case
  proof (cases "t + 1000 \<le> now")
    case True
    then have "\<forall>m \<in> set (msg # msgs). t + 1000 \<le> fst m"
      using now_le msg by auto
    then have "filter (\<lambda>(m, effs). inWindow t (fst m) \<and> dispatched effs)
                  (zip (msg # msgs) (deliverAll pf ch (msg # msgs))) = []"
      by (rule no_later_dispatch)
    moreover have "length (filter (inWindow t) ?w) \<le> length ?w" by simp
    ultimately show ?thesis using Cons.prems(4) by (simp del: length_filter_le)
  next
    case False
    then have same: "filter (inWindow t) ?w = filter (inWindow t) ?w1"
      unfolding w1 filter_filter
      by (intro filter_cong refl) (auto simp: inWindow_def)
    show ?thesis
    proof (cases "r \<le> real (length ?w1)")
      case True
      then have step: "rateLimitStep (rateLimit (options ch)) ?w now = (False, ?w1)"
        using Cons.prems(1,2) by (simp add: rateLimitStep_def)
      then have win': "rateLimitWindow ?ch' = ?w1" by (simp add: onMessage_window)
      have noeff: "?effs = []" using step by (simp add: onMessage_limited)
      have "sorted (?w1 @ map fst msgs)"
        using sw1 smsgs cross by (simp only: sorted_append)
      moreover have "int (length ?w1) \<le> \<lceil>r\<rceil>" using lenw1 Cons.prems(4) by simp
      ultimately have "int (length (filter (inWindow t) ?w1)) + int (length ?rest) \<le> \<lceil>r\<rceil>"
        using Cons.IH [of ?ch'] opts' Cons.prems(2) win' by simp
      then show ?thesis using same noeff msg by (simp add: dispatched_def)
    next
      case False
      then have step: "rateLimitStep (rateLimit (options ch)) ?w now = (True, ?w1 @ [now])"
        using Cons.prems(1,2) by (simp add: rateLimitStep_def)
      then have win': "rateLimitWindow ?ch' = ?w1 @ [now]" by (simp add: onMessage_window)
      have "sorted (?w1 @ [now])"
        using sw1 w1_le by (simp add: sorted_append)
      moreover have "\<forall>a \<in> set (?w1 @ [now]). \<forall>b \<in> set (map fst msgs). a \<le> b"
        using cross now_le by auto
      ultimately have "sorted ((?w1 @ [now]) @ map fst msgs)"
        using smsgs by (subst sorted_append) blast
      moreover have "int (length (?w1 @ [now])) \<le> \<lceil>r\<rceil>"
      proof -
        from False have "real_of_int (int (length ?w1)) < r" by simp
        then have "int (length ?w1) < \<lceil>r\<rceil>" by (simp only: less_ceiling_iff)
        then show ?thesis by simp
      qed
      ultimately have
        "int (length (filter (inWindow t) (?w1 @ [now]))) + int (length ?rest) \<le> \<lceil>r\<rceil>"
        using Cons.IH [of ?ch'] opts' Cons.prems(2) win' by simp
      then show ?thesis using same msg by (simp add: split: if_splits)
    qed
  qed
qed

lemma decode_pingRaw:
  "decode (model_platform r) pingRaw None
     = Some (JObj [(ustr ''$ch'', JStr (ustr ''ping'')), (ustr ''p'', JStr (ustr ''hi''))])"
proof -
  have "real (length pingRaw) \<le> MAX_MESSAGE_SIZE"
    by (simp add: pingRaw_def ustr_def MAX_MESSAGE_SIZE_def)
  then show ?thesis
    by (simp add: decode_def model_platform_def parse_pingRaw delete_proto_def isEnvelope_def
        ch_not_proto)
qed

lemma ping_step:
  assumes "options ch = pingOptions\<lparr>rateLimit := rl\<rparr>" "channelId ch = []"
    and "normalizedOrigins ch = None" "listeners ch (ustr ''ping'') = Some hs"
  shows "channelOnMessage (model_platform []) ch now pingRaw url =
           (case rateLimitStep rl (rateLimitWindow ch) now of
              (False, w1) \<Rightarrow> (ch\<lparr>rateLimitWindow := w1\<rparr>, [])
            | (True, w1) \<Rightarrow>
                (ch\<lparr>rateLimitWindow := w1\<rparr>,
                 SafeParse (ustr ''ping'') (JStr (ustr ''hi''))
                   # map (\<lambda>fn. Invoke fn (JStr (ustr ''hi''))) hs))"
proof -
  have c: "get_prop (ustr ''$ch'')
        (JObj [(ustr ''$ch'', JStr (ustr ''ping'')), (ustr ''p'', JStr (ustr ''hi''))])
       = JStr (ustr ''ping'')"
    by (simp add: get_prop_def)
  have p: "get_prop (ustr ''p'')
        (JObj [(ustr ''$ch'', JStr (ustr ''ping'')), (ustr ''p'', JStr (ustr ''hi''))])
       = JStr (ustr ''hi'')"
    by (simp add: get_prop_def ustr_def)
  show ?thesis
    using assms
    by (simp add: channelOnMessage_def pingOptions_def decode_pingRaw c p unprefixCh_def
        originGateOpen_def validatePayload_def stringSchema_def inSchemas_def
        split: prod.splits bool.splits)
qed

lemma pingChannel_fields:
  "options (pingChannel (pingOptions\<lparr>rateLimit := rl\<rparr>)) = pingOptions\<lparr>rateLimit := rl\<rparr>"
  "channelId (pingChannel (pingOptions\<lparr>rateLimit := rl\<rparr>)) = []"
  "normalizedOrigins (pingChannel (pingOptions\<lparr>rateLimit := rl\<rparr>)) = None"
  "listeners (pingChannel (pingOptions\<lparr>rateLimit := rl\<rparr>)) (ustr ''ping'') = Some [1]"
  "rateLimitWindow (pingChannel (pingOptions\<lparr>rateLimit := rl\<rparr>)) = []"
  by (simp_all add: pingChannel_def on_def channelOf_def pingOptions_def Let_def
      resolveChannelId_def normalizeOrigins_def inSchemas_def)

text \<open>
  C6 (as stated, refuted). A timestamp leaves the window when it is 1000 ms old
  (\<open>w[0] <= now - 1000\<close>): with \<open>rateLimit: 1\<close>, messages arriving at 0 ms and at
  1000 ms are both dispatched, and both lie in the interval from 0 to 1000 ms, whose
  duration is one second. The window is emptied from its head by the current reading of
  \<open>Date.now()\<close>: with \<open>rateLimit: 2\<close> and a clock that steps back (readings 2000, 1000,
  3000, 1500, 4000, 1600), all six messages are dispatched, three of them with arrival
  times 1000, 1500 and 1600. And the limit is compared as a number
  (\<open>w.length >= rateLimit\<close>): with \<open>rateLimit: 2.5\<close>, three messages arriving in the same
  millisecond are dispatched.
\<close>

theorem rate_limit_closed_interval_counterexample:
  "\<not> int (length (filter (\<lambda>(m, effs). (0::int) \<le> fst m \<and> fst m \<le> 0 + 1000 \<and> dispatched effs)
        (zip [(0, pingRaw, appUrl), (1000, pingRaw, appUrl)]
           (deliverAll (model_platform []) (pingChannel (pingOptions\<lparr>rateLimit := Some 1\<rparr>))
              [(0, pingRaw, appUrl), (1000, pingRaw, appUrl)])))) \<le> 1
   \<and> \<not> int (length (filter (\<lambda>(m, effs). (1000::int) \<le> fst m \<and> fst m < 1000 + 1000 \<and> dispatched effs)
        (zip [(2000, pingRaw, appUrl), (1000, pingRaw, appUrl), (3000, pingRaw, appUrl),
              (1500, pingRaw, appUrl), (4000, pingRaw, appUrl), (1600, pingRaw, appUrl)]
           (deliverAll (model_platform []) (pingChannel (pingOptions\<lparr>rateLimit := Some 2\<rparr>))
              [(2000, pingRaw, appUrl), (1000, pingRaw, appUrl), (3000, pingRaw, appUrl),
               (1500, pingRaw, appUrl), (4000, pingRaw, appUrl), (1600, pingRaw, appUrl)])))) \<le> 2
   \<and> \<not> real (length (filter (\<lambda>(m, effs). (0::int) \<le> fst m \<and> fst m < 0 + 1000 \<and> dispatched effs)
        (zip [(0, pingRaw, appUrl), (0, pingRaw, appUrl), (0, pingRaw, appUrl)]
           (deliverAll (model_platform []) (pingChannel (pingOptions\<lparr>rateLimit := Some (5 / 2)\<rparr>))
              [(0, pingRaw, appUrl), (0, pingRaw, appUrl), (0, pingRaw, appUrl)])))) \<le> 5 / 2"
proof (intro conjI)
  show "\<not> int (length (filter (\<lambda>(m, effs). (0::int) \<le> fst m \<and> fst m \<le> 0 + 1000 \<and> dispatched effs)
        (zip [(0, pingRaw, appUrl), (1000, pingRaw, appUrl)]
           (deliverAll (model_platform []) (pingChannel (pingOptions\<lparr>rateLimit := Some 1\<rparr>))
              [(0, pingRaw, appUrl), (1000, pingRaw, appUrl)])))) \<le> 1"
    by (simp add: ping_step pingChannel_fields rateLimitStep_def dispatched_def)
  show "\<not> int (length (filter (\<lambda>(m, effs). (1000::int) \<le> fst m \<and> fst m < 1000 + 1000 \<and> dispatched effs)
        (zip [(2000, pingRaw, appUrl), (1000, pingRaw, appUrl), (3000, pingRaw, appUrl),
              (1500, pingRaw, appUrl), (4000, pingRaw, appUrl), (1600, pingRaw, appUrl)]
           (deliverAll (model_platform []) (pingChannel (pingOptions\<lparr>rateLimit := Some 2\<rparr>))
              [(2000, pingRaw, appUrl), (1000, pingRaw, appUrl), (3000, pingRaw, appUrl),
               (1500, pingRaw, appUrl), (4000, pingRaw, appUrl), (1600, pingRaw, appUrl)])))) \<le> 2"
    by (simp add: ping_step pingChannel_fields rateLimitStep_def dispatched_def)
  show "\<not> real (length (filter (\<lambda>(m, effs). (0::int) \<le> fst m \<and> fst m < 0 + 1000 \<and> dispatched effs)
        (zip [(0, pingRaw, appUrl), (0, pingRaw, appUrl), (0, pingRaw, appUrl)]
           (deliverAll (model_platform []) (pingChannel (pingOptions\<lparr>rateLimit := Some (5 / 2)\<rparr>))
              [(0, pingRaw, appUrl), (0, pingRaw, appUrl), (0, pingRaw, appUrl)])))) \<le> 5 / 2"
    by (simp add: ping_step pingChannel_fields rateLimitStep_def dispatched_def)
qed

lemma rate_limit_scenario:
  "map dispatched (deliverAll (model_platform [])
              (pingChannel (pingOptions\<lparr>rateLimit := Some 3\<rparr>))
              [(T, pingRaw, appUrl), (T, pingRaw, appUrl), (T, pingRaw, appUrl),
               (T, pingRaw, appUrl), (T, pingRaw, appUrl), (T + 1100, pingRaw, appUrl)])
           = [True, True, True, False, False, True]"
  by (simp add: ping_step pingChannel_fields rateLimitStep_def dispatched_def)

text \<open>
  C6 (amended). For every \<open>rateLimit = r > 0\<close>, a whole number or not, and every
  sequence of messages delivered to a new channel at non-decreasing readings of
  \<open>Date.now()\<close>, the messages dispatched to handlers with an arrival time in a half-open
  interval \<open>[t, t + 1000 ms)\<close> number at most \<open>r\<close> rounded up, which is \<open>r\<close> for a
  whole number. Concretely, with \<open>r = 3\<close>, of five messages arriving in the same
  millisecond the first three are dispatched and the fourth and fifth dropped, and a sixth
  arriving 1.1 s later is dispatched.
\<close>

theorem rate_limit_window_bound:
  assumes "rateLimit (options ch) = Some r" "0 < r"
    and "rateLimitWindow ch = []"
    and "sorted (map fst msgs)"
  shows "int (length (filter (\<lambda>(m, effs). t \<le> fst m \<and> fst m < t + 1000 \<and> dispatched effs)
                  (zip msgs (deliverAll pf ch msgs)))) \<le> \<lceil>r\<rceil>
         \<and> (r \<in> \<int> \<longrightarrow>
              real (length (filter (\<lambda>(m, effs). t \<le> fst m \<and> fst m < t + 1000 \<and> dispatched effs)
                  (zip msgs (deliverAll pf ch msgs)))) \<le> r)
         \<and> map dispatched (deliverAll (model_platform [])
              (pingChannel (pingOptions\<lparr>rateLimit := Some 3\<rparr>))
              [(T, pingRaw, appUrl), (T, pingRaw, appUrl), (T, pingRaw, appUrl),
               (T, pingRaw, appUrl), (T, pingRaw, appUrl), (T + 1100, pingRaw, appUrl)])
           = [True, True, True, False, False, True]"
proof -
  let ?n = "length (filter (\<lambda>(m, effs). t \<le> fst m \<and> fst m < t + 1000 \<and> dispatched effs)
                  (zip msgs (deliverAll pf ch msgs)))"
  have "0 \<le> \<lceil>r\<rceil>" using assms(2) by simp
  then have a: "int ?n \<le> \<lceil>r\<rceil>"
    using rate_bound_gen [of ch r msgs t pf] assms by (simp add: inWindow_def)
  have b: "r \<in> \<int> \<longrightarrow> real ?n \<le> r"
  proof
    assume "r \<in> \<int>"
    then obtain z where "r = real_of_int z" by (rule Ints_cases)
    then have e: "real_of_int \<lceil>r\<rceil> = r" by simp
    from a have "real_of_int (int ?n) \<le> real_of_int \<lceil>r\<rceil>" by (simp only: of_int_le_iff)
    then have "real ?n \<le> real_of_int \<lceil>r\<rceil>" by (simp only: of_int_of_nat_eq)
    then show "real ?n \<le> r" by (simp only: e)
  qed
  from a b rate_limit_scenario [of T] show ?thesis by (intro conjI)
qed

theorem rate_limit_window_bound_witness:
  "rateLimit (options (pingChannel (pingOptions\<lparr>rateLimit := Some 3\<rparr>))) = Some 3
   \<and> int (length (filter (\<lambda>(m, effs). 0 \<le> fst m \<and> fst m < 0 + 1000 \<and> dispatched effs)
        (zip [(0, pingRaw, appUrl), (0, pingRaw, appUrl), (0, pingRaw, appUrl),
              (0, pingRaw, appUrl), (999::int, pingRaw, appUrl)]
           (deliverAll (model_platform []) (pingChannel (pingOptions\<lparr>rateLimit := Some 3\<rparr>))
             [(0, pingRaw, appUrl), (0, pingRaw, appUrl), (0, pingRaw, appUrl),
              (0, pingRaw, appUrl), (999, pingRaw, appUrl)])))) \<le> 3
   \<and> int (length (filter (\<lambda>(m, effs). 0 \<le> fst m \<and> fst m < 0 + 1000 \<and> dispatched effs)
        (zip [(0, pingRaw, appUrl), (0, pingRaw, appUrl), (0, pingRaw, appUrl),
              (0::int, pingRaw, appUrl)]
           (deliverAll (model_platform []) (pingChannel (pingOptions\<lparr>rateLimit := Some (5 / 2)\<rparr>))
             [(0, pingRaw, appUrl), (0, pingRaw, appUrl), (0, pingRaw, appUrl),
              (0, pingRaw, appUrl)])))) \<le> 3"
proof -
  let ?ch = "pingChannel (pingOptions\<lparr>rateLimit := Some 3\<rparr>)"
  let ?msgs = "[(0, pingRaw, appUrl), (0, pingRaw, appUrl), (0, pingRaw, appUrl),
                (0, pingRaw, appUrl), (999::int, pingRaw, appUrl)]"
  let ?ch2 = "pingChannel (pingOptions\<lparr>rateLimit := Some (5 / 2)\<rparr>)"
  let ?msgs2 = "[(0, pingRaw, appUrl), (0, pingRaw, appUrl), (0, pingRaw, appUrl),
                (0::int, pingRaw, appUrl)]"
  have h1: "rateLimit (options ?ch) = Some 3"
    by (simp add: pingChannel_fields)
  have h2: "(0::real) < 3" by simp
  have h3: "rateLimitWindow ?ch = []" by (simp add: pingChannel_fields)
  have h4: "sorted (map fst ?msgs)" by simp
  have k1: "rateLimit (options ?ch2) = Some (5 / 2)"
    by (simp add: pingChannel_fields)
  have k2: "(0::real) < 5 / 2" by simp
  have k3: "rateLimitWindow ?ch2 = []" by (simp add: pingChannel_fields)
  have k4: "sorted (map fst ?msgs2)" by simp
  have c3: "\<lceil>3::real\<rceil> = 3" by simp
  have c25: "\<lceil>5 / 2::real\<rceil> = 3" by (simp add: ceiling_eq_iff)
  from rate_limit_window_bound [OF h1 h2 h3 h4, of 0 "model_platform []" 0]
  have a: "int (length (filter (\<lambda>(m, effs). 0 \<le> fst m \<and> fst m < 0 + 1000 \<and> dispatched effs)
        (zip ?msgs (deliverAll (model_platform []) ?ch ?msgs)))) \<le> 3"
    unfolding c3 by (rule conjunct1)
  from rate_limit_window_bound [OF k1 k2 k3 k4, of 0 "model_platform []" 0]
  have b: "int (length (filter (\<lambda>(m, effs). 0 \<le> fst m \<and> fst m < 0 + 1000 \<and> dispatched effs)
        (zip ?msgs2 (deliverAll (model_platform []) ?ch2 ?msgs2)))) \<le> 3"
    unfolding c25 by (rule conjunct1)
  from h1 a b show ?thesis by (intro conjI)
qed

section \<open>The output of sanitizeForJs\<close>

subsection \<open>Characters of the output\<close>

lemma notin_replaceAll:
  "x \<notin> set s \<Longrightarrow> x \<notin> set rep \<Longrightarrow> x \<notin> set (replaceAll pat rep s)"
proof (induction pat rep s rule: replaceAll.induct)
  case (1 pat rep)
  then show ?case by simp
next
  case (2 pat rep c s)
  show ?case
  proof (cases "pat \<noteq> [] \<and> matchAt pat (c # s)")
    case True
    have "x \<notin> set (drop (length pat) (c # s))"
      using "2.prems"(1) by (meson in_set_dropD)
    with True 2 show ?thesis by simp
  next
    case False
    with 2 show ?thesis by auto
  qed
qed

lemma replaceAll_removes: "x \<notin> set rep \<Longrightarrow> x \<notin> set (replaceAll [[x]] rep s)"
  by (induction s) auto

subsection \<open>No closing script tag\<close>

lemma matchAt_tail_reflect:
  assumes "rep \<noteq> []" "\<forall>cls \<in> set cs. hd rep \<notin> set cls"
  shows "matchAt cs (replaceAll pat rep s) \<Longrightarrow> matchAt cs s"
  using assms(2)
proof (induction cs arbitrary: s)
  case Nil
  then show ?case by simp
next
  case (Cons cl cs)
  show ?case
  proof (cases s)
    case Nil
    with Cons.prems show ?thesis by simp
  next
    case (Cons c s')
    show ?thesis
    proof (cases "pat \<noteq> [] \<and> matchAt pat (c # s')")
      case True
      obtain r rs where rep: "rep = r # rs" using assms(1) by (cases rep) auto
      from True Cons.prems(1) \<open>s = c # s'\<close> rep have "r \<in> set cl" by simp
      moreover from Cons.prems(2) rep have "r \<notin> set cl" by simp
      ultimately show ?thesis by simp
    next
      case False
      with Cons.prems(1) \<open>s = c # s'\<close> have "c \<in> set cl" "matchAt cs (replaceAll pat rep s')"
        by auto
      moreover from Cons.prems(2) have "\<forall>cls \<in> set cs. hd rep \<notin> set cls" by simp
      ultimately show ?thesis using Cons.IH \<open>s = c # s'\<close> by simp
    qed
  qed
qed

lemma no_occurrence_after_replace:
  assumes "pat = cl # cs" "rep \<noteq> []" "\<forall>cls \<in> set cs. hd rep \<notin> set cls"
    and "\<And>X. occursIn pat (rep @ X) = occursIn pat X"
  shows "\<not> occursIn pat (replaceAll pat rep s)"
  using assms
proof (induction pat rep s rule: replaceAll.induct)
  case (1 pat rep)
  then show ?case by simp
next
  case (2 pat rep c s)
  show ?case
  proof (cases "pat \<noteq> [] \<and> matchAt pat (c # s)")
    case True
    with 2 show ?thesis by simp
  next
    case False
    then have eq: "replaceAll pat rep (c # s) = c # replaceAll pat rep s" by auto
    have "\<not> occursIn pat (replaceAll pat rep s)"
      using False 2 by blast
    moreover have "\<not> matchAt pat (c # replaceAll pat rep s)"
    proof
      assume m: "matchAt pat (c # replaceAll pat rep s)"
      with "2.prems"(1) have "c \<in> set cl" "matchAt cs (replaceAll pat rep s)" by auto
      with "2.prems"(2,3) have "matchAt cs s" by (metis matchAt_tail_reflect)
      with \<open>c \<in> set cl\<close> "2.prems"(1) False show False by simp
    qed
    ultimately show ?thesis unfolding eq by simp
  qed
qed

lemma occursIn_iff: "occursIn pat s \<longleftrightarrow> (\<exists>i. matchAt pat (drop i s))"
proof (induction s)
  case Nil
  then show ?case by simp
next
  case (Cons c s)
  have "(\<exists>i. matchAt pat (drop i (c # s)))
        \<longleftrightarrow> matchAt pat (c # s) \<or> (\<exists>j. matchAt pat (drop j s))"
  proof
    assume "\<exists>i. matchAt pat (drop i (c # s))"
    then obtain i where i: "matchAt pat (drop i (c # s))" ..
    then show "matchAt pat (c # s) \<or> (\<exists>j. matchAt pat (drop j s))"
      by (cases i) auto
  next
    assume "matchAt pat (c # s) \<or> (\<exists>j. matchAt pat (drop j s))"
    then show "\<exists>i. matchAt pat (drop i (c # s))"
    proof
      assume "matchAt pat (c # s)"
      then have "matchAt pat (drop 0 (c # s))" by simp
      then show ?thesis ..
    next
      assume "\<exists>j. matchAt pat (drop j s)"
      then obtain j where "matchAt pat (drop (Suc j) (c # s))" by auto
      then show ?thesis ..
    qed
  qed
  with Cons show ?case by simp
qed

lemma scriptClose_rep:
  "occursIn scriptClose ((60 # 92 # ustr ''/script>'') @ X) = occursIn scriptClose X"
  by (simp add: scriptClose_def ustr_def)

lemma no_script_close:
  "\<not> occursIn scriptClose (replaceAll scriptClose (60 # 92 # ustr ''/script>'') s)"
  by (rule no_occurrence_after_replace [where cl = "[60]"
        and cs = "[[47], [115, 83], [99, 67], [114, 82], [105, 73], [112, 80], [116, 84], [62]]"])
     (simp_all add: scriptClose_def ustr_def)

subsection \<open>Escaping\<close>

lemma nextIs_replaceAll:
  assumes "rep \<noteq> []" "\<not> nextIs rep x" "nextIs (replaceAll pat rep s) x"
  shows "nextIs s x"
proof (cases s)
  case Nil
  with assms(3) show ?thesis by (simp add: nextIs_def)
next
  case (Cons c s')
  obtain r rs where rep: "rep = r # rs" using assms(1) by (cases rep) auto
  with assms(2) have "r \<noteq> x" by (simp add: nextIs_def)
  with assms(3) Cons rep show ?thesis
    by (cases "pat \<noteq> [] \<and> matchAt pat (c # s')") (auto simp: nextIs_def)
qed

lemma nextIs_escape:
  "q \<noteq> 123 \<Longrightarrow> nextIs (replaceAll [[q]] [92, q] s) 123 = nextIs s 123"
  by (cases s) (auto simp: nextIs_def)

lemma backslashes_doubled: "escapedOnly {} False False (replaceAll [[92]] [92, 92] s)"
  by (induction s) auto

lemma escape_char:
  assumes "q \<notin> Q" "q \<noteq> 92" "q \<noteq> 36" "q \<noteq> 123"
  shows "escapedOnly Q D par s
         \<Longrightarrow> escapedOnly (insert q Q) D par (replaceAll [[q]] [92, q] s)"
proof (induction s arbitrary: par)
  case Nil
  then show ?case by simp
next
  case (Cons c s)
  show ?case
  proof (cases "c = 92")
    case True
    with Cons assms show ?thesis by simp
  next
    case False
    show ?thesis
    proof (cases "c = q")
      case True
      with Cons False assms show ?thesis by simp
    next
      case nq: False
      from Cons.prems False
      have p: "par = (c \<in> Q \<or> (D \<and> c = 36 \<and> nextIs s 123))" and r: "escapedOnly Q D False s"
        by simp_all
      from r have "escapedOnly (insert q Q) D False (replaceAll [[q]] [92, q] s)"
        by (rule Cons.IH)
      with p False nq assms(4) show ?thesis by (simp add: nextIs_escape)
    qed
  qed
qed

lemma dollar_simps:
  "replaceAll [[36], [123]] rep [c] = [c]"
  "replaceAll [[36], [123]] rep (c # d # s) =
     (if c = 36 \<and> d = 123 then rep @ replaceAll [[36], [123]] rep s
      else c # replaceAll [[36], [123]] rep (d # s))"
  by simp_all

lemma escape_dollar:
  assumes "36 \<notin> Q" "123 \<notin> Q"
  shows "escapedOnly Q False par s
         \<Longrightarrow> escapedOnly Q True par (replaceAll [[36], [123]] [92, 36, 123] s)"
proof (induction s arbitrary: par rule: induct_list012)
  case 1
  then show ?case by simp
next
  case (2 c)
  then show ?case by (simp add: nextIs_def)
next
  case (3 c d s)
  let ?out = "replaceAll [[36], [123]] [92, 36, 123]"
  show ?case
  proof (cases "c = 36 \<and> d = 123")
    case True
    then have eq: "?out (c # d # s) = 92 # 36 # 123 # ?out s" by simp
    from True "3.prems" assms have "par = False" "escapedOnly Q False False s"
      by (simp_all add: nextIs_def)
    with "3.IH"(1) [of False] assms show ?thesis
      unfolding eq by (simp add: nextIs_def)
  next
    case False
    then have eq: "?out (c # d # s) = c # ?out (d # s)" by auto
    show ?thesis
    proof (cases "c = 92")
      case True
      with "3.prems" have "escapedOnly Q False (\<not> par) (d # s)" by simp
      then have "escapedOnly Q True (\<not> par) (?out (d # s))" by (rule "3.IH"(2))
      with True show ?thesis unfolding eq by simp
    next
      case nb: False
      from "3.prems" nb have p: "par = (c \<in> Q)" and r: "escapedOnly Q False False (d # s)"
        by (auto split: if_splits)
      from r have ih: "escapedOnly Q True False (?out (d # s))" by (rule "3.IH"(2))
      have nn: "\<not> (c = 36 \<and> nextIs (?out (d # s)) 123)"
      proof
        assume a: "c = 36 \<and> nextIs (?out (d # s)) 123"
        then have "nextIs (d # s) 123"
          by (intro nextIs_replaceAll [of "[92, 36, 123]" 123 "[[36], [123]]" "d # s"])
             (simp_all add: nextIs_def)
        with a False show False by (simp add: nextIs_def)
      qed
      have "escapedOnly Q True par (c # ?out (d # s))
              = (par = (c \<in> Q \<or> (c = 36 \<and> nextIs (?out (d # s)) 123))
                 \<and> escapedOnly Q True False (?out (d # s)))"
        using nb by (simp only: escapedOnly.simps if_False simp_thms)
      with p ih nn show ?thesis unfolding eq by blast
    qed
  qed
qed

lemma escapedOnly_escaped:
  "escapedOnly Q True par s \<Longrightarrow> Q = {34, 39, 96} \<Longrightarrow> escaped par s"
  by (induction s arbitrary: par) (auto split: if_splits)

lemma escaped_drop_match:
  assumes "\<forall>cls \<in> set pat. \<forall>c \<in> set cls. plainUnit c"
  shows "matchAt pat s \<Longrightarrow> escaped par s
         \<Longrightarrow> escaped (if pat = [] then par else False) (drop (length pat) s)"
  using assms
proof (induction pat arbitrary: s par)
  case Nil
  then show ?case by simp
next
  case (Cons cl pat)
  from Cons.prems(1) obtain c s' where s: "s = c # s'" "c \<in> set cl" "matchAt pat s'"
    by (cases s) auto
  with Cons.prems(3) have "plainUnit c" by auto
  with Cons.prems(2) s have e: "escaped False s'" by (simp add: plainUnit_def)
  from Cons.prems(3) have "\<forall>cls \<in> set pat. \<forall>c \<in> set cls. plainUnit c" by simp
  from Cons.IH [OF s(3) e this] s show ?case by (cases "pat = []") simp_all
qed

lemma escaped_rep:
  assumes "rep \<noteq> []" "\<forall>c \<in> set rep. c \<notin> {34, 39, 96, 36}" "last rep \<noteq> 92"
  shows "escaped par (rep @ X) = escaped False X"
  using assms
proof (induction rep arbitrary: par rule: list_nonempty_induct)
  case (single r)
  then show ?case by simp
next
  case (cons r rep)
  then show ?case by simp
qed

lemma plain_replace_escaped:
  assumes "pat \<noteq> []" "\<forall>cls \<in> set pat. \<forall>c \<in> set cls. plainUnit c"
    and "rep \<noteq> []" "\<forall>c \<in> set rep. c \<notin> {34, 39, 96, 36}" "last rep \<noteq> 92"
    and "\<not> nextIs rep 123"
  shows "escaped par s \<Longrightarrow> escaped par (replaceAll pat rep s)"
  using assms
proof (induction pat rep s arbitrary: par rule: replaceAll.induct)
  case (1 pat rep)
  then show ?case by simp
next
  case (2 pat rep c s)
  show ?case
  proof (cases "pat \<noteq> [] \<and> matchAt pat (c # s)")
    case True
    then have eq: "replaceAll pat rep (c # s)
                     = rep @ replaceAll pat rep (drop (length pat) (c # s))" by simp
    from True "2.prems"(1,3) have "escaped False (drop (length pat) (c # s))"
      using escaped_drop_match [of pat "c # s" par] by simp
    then have "escaped False (replaceAll pat rep (drop (length pat) (c # s)))"
      using "2.IH"(1) [OF True] "2.prems"(2-7) by blast
    then show ?thesis
      unfolding eq using escaped_rep [OF "2.prems"(4) "2.prems"(5) "2.prems"(6)] by simp
  next
    case False
    then have eq: "replaceAll pat rep (c # s) = c # replaceAll pat rep s" by auto
    have ih: "escaped p s \<Longrightarrow> escaped p (replaceAll pat rep s)" for p
      using "2.IH"(2) [OF False] "2.prems"(2-7) by blast
    have nx: "nextIs (replaceAll pat rep s) 123 \<Longrightarrow> nextIs s 123"
      using "2.prems"(4,7) by (rule nextIs_replaceAll)
    show ?thesis
    proof (cases "c = 92")
      case True
      with "2.prems"(1) ih [of "\<not> par"] show ?thesis unfolding eq by simp
    next
      case nb: False
      with "2.prems"(1) ih [of False] nx show ?thesis unfolding eq by auto
    qed
  qed
qed

lemma escaped_parityAfter: "escaped par (a @ s) \<Longrightarrow> escaped (parityAfter par a) s"
  by (induction a arbitrary: par) (auto split: if_splits)

lemma parityAfter_snoc:
  "parityAfter par (a @ [x]) = (if x = 92 then \<not> parityAfter par a else False)"
  by (induction a arbitrary: par) auto

lemma parityAfter_odd:
  "parityAfter False a = odd (length (takeWhile (\<lambda>c. c = 92) (rev a)))"
  by (induction a rule: rev_induct) (simp_all add: parityAfter_snoc)

lemma escaped_at:
  assumes "escaped False s" "i < length s"
  shows "(s ! i \<in> {34, 39, 96} \<longrightarrow> odd (backslashesBefore s i))
         \<and> (s ! i = 36 \<and> Suc i < length s \<and> s ! Suc i = 123 \<longrightarrow> odd (backslashesBefore s i))"
proof -
  have s: "s = take i s @ s ! i # drop (Suc i) s"
    using assms(2) by (rule id_take_nth_drop)
  have "escaped False (take i s @ s ! i # drop (Suc i) s)"
    using assms(1) s by simp
  then have e: "escaped (parityAfter False (take i s)) (s ! i # drop (Suc i) s)"
    by (rule escaped_parityAfter)
  have n: "nextIs (drop (Suc i) s) 123" if "Suc i < length s" "s ! Suc i = 123"
    using that by (simp add: nextIs_def Cons_nth_drop_Suc [symmetric])
  from e n show ?thesis
    by (auto simp: parityAfter_odd backslashesBefore_def split: if_splits)
qed

subsection \<open>The whole chain\<close>

lemma sanitize_steps:
  "sanitizeForJs input =
     replaceAll scriptClose (60 # 92 # ustr ''/script>'')
      (replaceAll [[8233]] (92 # ustr ''u2029'')
        (replaceAll [[8232]] (92 # ustr ''u2028'')
          (replaceAll [[0]] (92 # ustr ''0'')
            (replaceAll [[13]] (92 # ustr ''r'')
              (replaceAll [[10]] (92 # ustr ''n'')
                (replaceAll [[36], [123]] [92, 36, 123]
                  (replaceAll [[96]] [92, 96]
                    (replaceAll [[34]] [92, 34]
                      (replaceAll [[39]] [92, 39]
                        (replaceAll [[92]] [92, 92] input))))))))))"
  by (simp only: sanitizeForJs_def Let_def)

lemma sanitize_escaped: "escaped False (sanitizeForJs input)"
proof -
  let ?s1 = "replaceAll [[92]] [92, 92] input"
  let ?s2 = "replaceAll [[39]] [92, 39] ?s1"
  let ?s3 = "replaceAll [[34]] [92, 34] ?s2"
  let ?s4 = "replaceAll [[96]] [92, 96] ?s3"
  let ?s5 = "replaceAll [[36], [123]] [92, 36, 123] ?s4"
  let ?s6 = "replaceAll [[10]] (92 # ustr ''n'') ?s5"
  let ?s7 = "replaceAll [[13]] (92 # ustr ''r'') ?s6"
  let ?s8 = "replaceAll [[0]] (92 # ustr ''0'') ?s7"
  let ?s9 = "replaceAll [[8232]] (92 # ustr ''u2028'') ?s8"
  let ?s10 = "replaceAll [[8233]] (92 # ustr ''u2029'') ?s9"
  have "escapedOnly {} False False ?s1" by (rule backslashes_doubled)
  then have "escapedOnly {39} False False ?s2" by (rule escape_char [rotated 4]) simp_all
  then have "escapedOnly {34, 39} False False ?s3" by (rule escape_char [rotated 4]) simp_all
  then have "escapedOnly {96, 34, 39} False False ?s4"
    by (rule escape_char [rotated 4]) simp_all
  then have "escapedOnly {96, 34, 39} True False ?s5" by (rule escape_dollar [rotated 2]) simp_all
  then have "escaped False ?s5" by (rule escapedOnly_escaped) auto
  then have "escaped False ?s6"
    by (rule plain_replace_escaped [rotated 6]) (simp_all add: plainUnit_def ustr_def nextIs_def)
  then have "escaped False ?s7"
    by (rule plain_replace_escaped [rotated 6]) (simp_all add: plainUnit_def ustr_def nextIs_def)
  then have "escaped False ?s8"
    by (rule plain_replace_escaped [rotated 6]) (simp_all add: plainUnit_def ustr_def nextIs_def)
  then have "escaped False ?s9"
    by (rule plain_replace_escaped [rotated 6]) (simp_all add: plainUnit_def ustr_def nextIs_def)
  then have "escaped False ?s10"
    by (rule plain_replace_escaped [rotated 6]) (simp_all add: plainUnit_def ustr_def nextIs_def)
  then have "escaped False (replaceAll scriptClose (60 # 92 # ustr ''/script>'') ?s10)"
    by (rule plain_replace_escaped [rotated 6])
       (simp_all add: plainUnit_def ustr_def nextIs_def scriptClose_def)
  then show ?thesis by (simp only: sanitize_steps)
qed

lemma sanitize_chars:
  assumes "c \<in> {10, 13, 0, 8232, 8233}"
  shows "c \<notin> set (sanitizeForJs input)"
proof -
  let ?s5 = "replaceAll [[36], [123]] [92, 36, 123]
              (replaceAll [[96]] [92, 96] (replaceAll [[34]] [92, 34]
                (replaceAll [[39]] [92, 39] (replaceAll [[92]] [92, 92] input))))"
  let ?s6 = "replaceAll [[10]] (92 # ustr ''n'') ?s5"
  let ?s7 = "replaceAll [[13]] (92 # ustr ''r'') ?s6"
  let ?s8 = "replaceAll [[0]] (92 # ustr ''0'') ?s7"
  let ?s9 = "replaceAll [[8232]] (92 # ustr ''u2028'') ?s8"
  let ?s10 = "replaceAll [[8233]] (92 # ustr ''u2029'') ?s9"
  let ?s11 = "replaceAll scriptClose (60 # 92 # ustr ''/script>'') ?s10"
  have keep: "x \<notin> set (replaceAll pat rep s)"
    if "x \<notin> set s" "x \<notin> set rep" for x s pat rep
    using that by (rule notin_replaceAll)
  have "10 \<notin> set ?s6" by (rule replaceAll_removes) (simp add: ustr_def)
  then have "10 \<notin> set ?s7" by (rule keep) (simp add: ustr_def)
  then have "10 \<notin> set ?s8" by (rule keep) (simp add: ustr_def)
  then have "10 \<notin> set ?s9" by (rule keep) (simp add: ustr_def)
  then have "10 \<notin> set ?s10" by (rule keep) (simp add: ustr_def)
  then have c10: "10 \<notin> set ?s11" by (rule keep) (simp add: ustr_def)
  have "13 \<notin> set ?s7" by (rule replaceAll_removes) (simp add: ustr_def)
  then have "13 \<notin> set ?s8" by (rule keep) (simp add: ustr_def)
  then have "13 \<notin> set ?s9" by (rule keep) (simp add: ustr_def)
  then have "13 \<notin> set ?s10" by (rule keep) (simp add: ustr_def)
  then have c13: "13 \<notin> set ?s11" by (rule keep) (simp add: ustr_def)
  have "0 \<notin> set ?s8" by (rule replaceAll_removes) (simp add: ustr_def)
  then have "0 \<notin> set ?s9" by (rule keep) (simp add: ustr_def)
  then have "0 \<notin> set ?s10" by (rule keep) (simp add: ustr_def)
  then have c0: "0 \<notin> set ?s11" by (rule keep) (simp add: ustr_def)
  have "8232 \<notin> set ?s9" by (rule replaceAll_removes) (simp add: ustr_def)
  then have "8232 \<notin> set ?s10" by (rule keep) (simp add: ustr_def)
  then have c2028: "8232 \<notin> set ?s11" by (rule keep) (simp add: ustr_def)
  have "8233 \<notin> set ?s10" by (rule replaceAll_removes) (simp add: ustr_def)
  then have c2029: "8233 \<notin> set ?s11" by (rule keep) (simp add: ustr_def)
  from assms c10 c13 c0 c2028 c2029 show ?thesis
    unfolding sanitize_steps by blast
qed

text \<open>
  What holds of the output for every input: the string that \<open>sanitizeForJs\<close> returns
  contains no newline, carriage return, NUL, U+2028 or U+2029; at no position does it have
  \<open></script>\<close> in any combination of upper and lower case; and every double quote,
  single quote and backtick, and every \<open>$\<close> that is followed by \<open>{\<close>, has an odd
  number of backslashes immediately before it. So the output cannot end a quoted string
  literal or a template literal that it is embedded in.
\<close>

theorem sanitizeForJs_safe:
  "(\<forall>c \<in> {10, 13, 0, 8232, 8233}. c \<notin> set (sanitizeForJs input))
   \<and> (\<forall>i. \<not> matchAt scriptClose (drop i (sanitizeForJs input)))
   \<and> (\<forall>i < length (sanitizeForJs input).
         sanitizeForJs input ! i \<in> {34, 39, 96}
         \<longrightarrow> odd (backslashesBefore (sanitizeForJs input) i))
   \<and> (\<forall>i. Suc i < length (sanitizeForJs input)
            \<and> sanitizeForJs input ! i = 36 \<and> sanitizeForJs input ! Suc i = 123
         \<longrightarrow> odd (backslashesBefore (sanitizeForJs input) i))"
proof (intro conjI)
  show "\<forall>c \<in> {10, 13, 0, 8232, 8233}. c \<notin> set (sanitizeForJs input)"
    using sanitize_chars by blast
  have "\<not> occursIn scriptClose (sanitizeForJs input)"
    unfolding sanitize_steps by (rule no_script_close)
  then show "\<forall>i. \<not> matchAt scriptClose (drop i (sanitizeForJs input))"
    by (simp add: occursIn_iff)
  show "\<forall>i < length (sanitizeForJs input).
         sanitizeForJs input ! i \<in> {34, 39, 96}
         \<longrightarrow> odd (backslashesBefore (sanitizeForJs input) i)"
    using escaped_at [OF sanitize_escaped] by blast
  show "\<forall>i. Suc i < length (sanitizeForJs input)
            \<and> sanitizeForJs input ! i = 36 \<and> sanitizeForJs input ! Suc i = 123
         \<longrightarrow> odd (backslashesBefore (sanitizeForJs input) i)"
    using escaped_at [OF sanitize_escaped] by (meson Suc_lessD)
qed

theorem sanitizeForJs_safe_witness:
  "sanitizeForJs [34, 36, 123] = [92, 34, 92, 36, 123]
   \<and> odd (backslashesBefore (sanitizeForJs [34, 36, 123]) 1)
   \<and> odd (backslashesBefore (sanitizeForJs [34, 36, 123]) 3)
   \<and> \<not> matchAt scriptClose (drop 0 (sanitizeForJs (ustr ''</SCRIPT>'')))
   \<and> 10 \<notin> set (sanitizeForJs [10])"
proof -
  have e: "sanitizeForJs [34, 36, 123] = [92, 34, 92, 36, 123]" by code_simp
  from sanitizeForJs_safe [of "[34, 36, 123]"]
  have "odd (backslashesBefore (sanitizeForJs [34, 36, 123]) 1)"
    and "odd (backslashesBefore (sanitizeForJs [34, 36, 123]) 3)"
    by (simp_all add: e)
  moreover from sanitizeForJs_safe [of "ustr ''</SCRIPT>''"]
  have "\<not> matchAt scriptClose (drop 0 (sanitizeForJs (ustr ''</SCRIPT>'')))" by blast
  moreover from sanitizeForJs_safe [of "[10]"]
  have "10 \<notin> set (sanitizeForJs [10])" by blast
  ultimately show ?thesis using e by simp
qed

text \<open>
  C10. The last \<open>replace\<close> rewrites only the exact text \<open></script>\<close>. An HTML parser
  also ends a \<open>script\<close> element at \<open></script\<close> followed by a space, a tab or \<open>/\<close>,
  and \<open>sanitizeForJs\<close> returns \<open></script >\<close>, \<open></script/>\<close> and \<open></script\<close>
  followed by a tab unchanged: embedded in a script element, the output ends the element,
  although the function is documented to handle closing \<open></script>\<close> tags. The exact
  text \<open></script>\<close> is rewritten and ends no element.
\<close>

theorem script_end_tag_survives:
  "sanitizeForJs (ustr ''</script >'') = ustr ''</script >''
   \<and> sanitizeForJs (ustr ''</script/>'') = ustr ''</script/>''
   \<and> sanitizeForJs (ustr ''</SCRIPT'' @ [9, 62]) = ustr ''</SCRIPT'' @ [9, 62]
   \<and> occursIn scriptEndTag (sanitizeForJs (ustr ''</script >''))
   \<and> occursIn scriptEndTag (sanitizeForJs (ustr ''</script/>''))
   \<and> occursIn scriptEndTag (sanitizeForJs (ustr ''</SCRIPT'' @ [9, 62]))
   \<and> \<not> occursIn scriptEndTag (sanitizeForJs (ustr ''</script>''))"
  by code_simp

theorem script_end_tag_survives_witness:
  "matchAt scriptEndTag (sanitizeForJs (ustr ''</script >''))
   \<and> matchAt scriptEndTag (sanitizeForJs (ustr ''</script/>''))"
proof -
  have "matchAt scriptEndTag (ustr ''</script >'')" "matchAt scriptEndTag (ustr ''</script/>'')"
    by (simp_all add: scriptEndTag_def ustr_def)
  with script_end_tag_survives show ?thesis by simp
qed

section \<open>The text of the client script\<close>

lemma inj_of_char16: "inj (of_char :: char \<Rightarrow> 16 word)"
proof (rule injI)
  fix a b :: char
  assume h: "(of_char a :: 16 word) = of_char b"
  have u: "unat (of_char c :: 16 word) = of_char c" for c :: char
  proof -
    have "(of_char c :: 16 word) = of_nat (of_char c)" by (simp only: of_nat_of_char)
    moreover have "(of_char c :: nat) < 2 ^ 16"
      by (rule less_trans [OF nat_of_char_less_256]) simp
    ultimately show ?thesis by (simp add: unat_of_nat)
  qed
  from h have "unat (of_char a :: 16 word) = unat (of_char b :: 16 word)" by simp
  then have "(of_char a :: nat) = of_char b" by (simp only: u)
  then show "a = b" by (simp only: of_char_eq_iff)
qed

lemma startsWith_simps:
  "startsWith s [] = True"
  "startsWith [] (d # n) = False"
  "startsWith (c # s) (d # n) = (c = d \<and> startsWith s n)"
  by (auto simp: startsWith_def)

lemma startsWith_map: "inj f \<Longrightarrow> startsWith (map f s) (map f n) = startsWith s n"
  by (simp add: startsWith_def take_map inj_map_eq_map)

lemma str_includes_map: "inj f \<Longrightarrow> str_includes (map f s) (map f n) = str_includes s n"
proof (induction s)
  case Nil
  then show ?case by simp
next
  case (Cons c s)
  from Cons.prems have "startsWith (map f (c # s)) (map f n) = startsWith (c # s) n"
    by (rule startsWith_map)
  with Cons show ?case by simp
qed

lemma ustr_includes: "str_includes (ustr s) (ustr n) = str_includes s n"
  unfolding ustr_def by (rule str_includes_map) (rule inj_of_char16)

lemma ustr_startsWith: "startsWith (ustr s) (ustr n) = startsWith s n"
  unfolding ustr_def by (rule startsWith_map) (rule inj_of_char16)

lemma ustr_append: "ustr (a @ b) = ustr a @ ustr b"
  by (simp add: ustr_def)

lemma str_includes_empty: "str_includes s []"
  by (cases s) (simp_all add: startsWith_simps)

lemma startsWith_append: "startsWith s n \<Longrightarrow> startsWith (s @ t) n"
proof -
  assume h: "startsWith s n"
  then have "length (take (length n) s) = length n"
    unfolding startsWith_def by (rule arg_cong)
  then have "length n \<le> length s" by simp
  with h show ?thesis by (simp add: startsWith_def)
qed

lemma startsWith_cancel: "startsWith (a @ b) (a @ p) = startsWith b p"
  by (simp add: startsWith_def)

lemma str_includes_left: "str_includes s n \<Longrightarrow> str_includes (s @ t) n"
proof (induction s)
  case Nil
  then show ?case by (simp add: str_includes_empty)
next
  case (Cons c s)
  then show ?case using startsWith_append [of "c # s" n t] by auto
qed

lemma str_includes_right: "str_includes t n \<Longrightarrow> str_includes (s @ t) n"
  by (induction s) simp_all

lemma str_includes_concat:
  "list_ex (\<lambda>l. str_includes l n) ls \<Longrightarrow> str_includes (concat ls) n"
  by (induction ls) (auto intro: str_includes_left str_includes_right)

lemma script_includes:
  assumes "list_ex (\<lambda>l. str_includes l n) clientScriptTail"
  shows "str_includes (getClientScript pf cid) (ustr n)"
proof -
  from assms have "str_includes (concat clientScriptTail) n" by (rule str_includes_concat)
  then have "str_includes (ustr (concat clientScriptTail)) (ustr n)"
    by (simp only: ustr_includes)
  then show ?thesis
    unfolding getClientScript_def Let_def
    by (intro str_includes_right)
qed

lemma script_starts:
  "startsWith (getClientScript pf cid) (ustr (concat clientScriptHead))"
  unfolding getClientScript_def Let_def
  by (rule startsWith_append) (simp add: startsWith_def)

text \<open>
  C7 (amended). For every \<open>channelId\<close> option the script begins with the five
  statements that save \<open>Array.prototype.slice\<close>, \<open>filter\<close>, \<open>push\<close>, \<open>indexOf\<close>
  and \<open>splice\<close> into the locals \<open>_slice\<close>, \<open>_filter\<close>, \<open>_push\<close>, \<open>_indexOf\<close>
  and \<open>_splice\<close>, before any use, and the dispatcher, \<open>off\<close> and the external-listener
  registry call through those locals. \<open>JSON.stringify\<close>, \<open>JSON.parse\<close>,
  \<open>Object.create\<close>, \<open>Object.defineProperty\<close> and \<open>Object.freeze\<close> are not saved into
  locals: the script is the template with the JSON text of the prefix put in, and in every
  line of the template the names \<open>JSON\<close> and \<open>Object\<close> occur only in direct calls of
  these five functions, each of which the script does call. The script contains the
  descriptor text \<open>writable:false,configurable:false\<close>, the size limit \<open>1048576\<close> and
  the \<open>__proto__\<close> strip.
\<close>

theorem client_script_captures:
  "startsWith (getClientScript pf cid)
     (ustr (concat
        [''(function(){\<newline>'',
         ''var _slice=Array.prototype.slice;\<newline>'',
         ''var _filter=Array.prototype.filter;\<newline>'',
         ''var _push=Array.prototype.push;\<newline>'',
         ''var _indexOf=Array.prototype.indexOf;\<newline>'',
         ''var _splice=Array.prototype.splice;\<newline>'',
         ''var _pfx='']))
   \<and> list_all (\<lambda>n. str_includes (getClientScript pf cid) (ustr n))
        [''var fns=_slice.call(_l[key])'',
         ''_l[t]=_filter.call(_l[t],'',
         ''_push.call(_el,fn)'',
         ''_indexOf.call(_el,fn)'',
         ''_splice.call(_el,i,1)'',
         ''var _l=Object.create(null)'',
         ''return JSON.stringify({$ch:'',
         ''var o=JSON.parse(r)'',
         ''try{Object.defineProperty(window,'',
         ''value:Object.freeze(ch)'',
         ''writable:false,configurable:false'',
         ''if(r.length>1048576)return null'',
         ''delete o.__proto__'']
   \<and> getClientScript pf cid
       = ustr (concat clientScriptHead)
         @ JSON_stringify pf (JStr (case cid of None \<Rightarrow> [] | Some c \<Rightarrow> c))
         @ ustr (concat clientScriptTail)
   \<and> list_all (\<lambda>l. callsOnly ''JSON'' [''.stringify('', ''.parse(''] l
                   \<and> callsOnly ''Object'' [''.create('', ''.defineProperty('', ''.freeze(''] l)
        (clientScriptHead @ clientScriptTail)"
proof (intro conjI)
  show "startsWith (getClientScript pf cid)
     (ustr (concat
        [''(function(){\<newline>'',
         ''var _slice=Array.prototype.slice;\<newline>'',
         ''var _filter=Array.prototype.filter;\<newline>'',
         ''var _push=Array.prototype.push;\<newline>'',
         ''var _indexOf=Array.prototype.indexOf;\<newline>'',
         ''var _splice=Array.prototype.splice;\<newline>'',
         ''var _pfx='']))"
    using script_starts [of pf cid] by (simp only: clientScriptHead_def)
  show "list_all (\<lambda>n. str_includes (getClientScript pf cid) (ustr n))
        [''var fns=_slice.call(_l[key])'',
         ''_l[t]=_filter.call(_l[t],'',
         ''_push.call(_el,fn)'',
         ''_indexOf.call(_el,fn)'',
         ''_splice.call(_el,i,1)'',
         ''var _l=Object.create(null)'',
         ''return JSON.stringify({$ch:'',
         ''var o=JSON.parse(r)'',
         ''try{Object.defineProperty(window,'',
         ''value:Object.freeze(ch)'',
         ''writable:false,configurable:false'',
         ''if(r.length>1048576)return null'',
         ''delete o.__proto__'']"
    unfolding list.pred_inject
    by (intro conjI TrueI script_includes) (simp_all add: clientScriptTail_def startsWith_simps)
  show "getClientScript pf cid
       = ustr (concat clientScriptHead)
         @ JSON_stringify pf (JStr (case cid of None \<Rightarrow> [] | Some c \<Rightarrow> c))
         @ ustr (concat clientScriptTail)"
    by (simp add: getClientScript_def)
  show "list_all (\<lambda>l. callsOnly ''JSON'' [''.stringify('', ''.parse(''] l
                   \<and> callsOnly ''Object'' [''.create('', ''.defineProperty('', ''.freeze(''] l)
        (clientScriptHead @ clientScriptTail)"
    by code_simp
qed

theorem client_script_captures_witness:
  "str_includes (getClientScript (model_platform []) (Some (ustr ''ns'')))
     (ustr ''_push.call(_el,fn)'')
   \<and> str_includes (getClientScript (model_platform []) (Some (ustr ''ns'')))
     (ustr ''delete o.__proto__'')"
  using client_script_captures [of "model_platform []" "Some (ustr ''ns'')",
      THEN conjunct2, THEN conjunct1]
  by simp

lemma model_script:
  "getClientScript (model_platform []) None
     = ustr (concat clientScriptHead @ [CHR 0x22, CHR 0x22] @ concat clientScriptTail)"
  by (simp add: getClientScript_def model_platform_def quoteJSON_def ustr_def)

text \<open>
  C7 (as stated, refuted). Without a channel id the script begins with the five captures
  of \<open>Array.prototype\<close> methods and the declarations of \<open>_pfx\<close>, \<open>_l\<close> and
  \<open>_el\<close>, and then defines \<open>_e\<close> with a call of the global \<open>JSON.stringify\<close>: up to
  that first use nothing saves \<open>JSON.stringify\<close>, \<open>JSON.parse\<close>,
  \<open>Object.defineProperty\<close>, \<open>Object.freeze\<close> or \<open>Object.create\<close>, and \<open>_l\<close> is made
  by the global \<open>Object.create\<close>. The decoder calls \<open>JSON.parse\<close> on the global, and the
  listener registry's \<open>on\<close> calls the array's own \<open>push\<close>.
\<close>

theorem client_script_globals_counterexample:
  "startsWith (getClientScript (model_platform []) None)
     (ustr (concat
        [''(function(){\<newline>'',
         ''var _slice=Array.prototype.slice;\<newline>'',
         ''var _filter=Array.prototype.filter;\<newline>'',
         ''var _push=Array.prototype.push;\<newline>'',
         ''var _indexOf=Array.prototype.indexOf;\<newline>'',
         ''var _splice=Array.prototype.splice;\<newline>'',
         ''var _pfx='',
         [CHR 0x22, CHR 0x22],
         '';\<newline>'',
         ''var _l=Object.create(null);\<newline>'',
         ''var _el=[];\<newline>'',
         ''function _e(t,p){return JSON.stringify({$ch:'']))
   \<and> str_includes (getClientScript (model_platform []) None)
        (ustr ''try{var o=JSON.parse(r)'')
   \<and> str_includes (getClientScript (model_platform []) None)
        (ustr ''on:function(t,h){if(!_l[t])_l[t]=[];_l[t].push(h)}'')"
proof (intro conjI)
  show "startsWith (getClientScript (model_platform []) None)
     (ustr (concat
        [''(function(){\<newline>'',
         ''var _slice=Array.prototype.slice;\<newline>'',
         ''var _filter=Array.prototype.filter;\<newline>'',
         ''var _push=Array.prototype.push;\<newline>'',
         ''var _indexOf=Array.prototype.indexOf;\<newline>'',
         ''var _splice=Array.prototype.splice;\<newline>'',
         ''var _pfx='',
         [CHR 0x22, CHR 0x22],
         '';\<newline>'',
         ''var _l=Object.create(null);\<newline>'',
         ''var _el=[];\<newline>'',
         ''function _e(t,p){return JSON.stringify({$ch:'']))"
    unfolding model_script ustr_startsWith
    apply (simp only: clientScriptHead_def clientScriptTail_def concat.simps append_assoc
        append_Nil2 startsWith_cancel)
    apply (rule startsWith_append)
    apply (simp add: startsWith_simps)
    done
  show "str_includes (getClientScript (model_platform []) None)
        (ustr ''try{var o=JSON.parse(r)'')"
    by (rule script_includes) (simp add: clientScriptTail_def startsWith_simps)
  show "str_includes (getClientScript (model_platform []) None)
        (ustr ''on:function(t,h){if(!_l[t])_l[t]=[];_l[t].push(h)}'')"
    by (rule script_includes) (simp add: clientScriptTail_def startsWith_simps)
qed

end
